theory Spec2Isabelle
  imports Complex_Main "HOL-Library.Log_Nat"
begin

section \<open>Errors and results\<close>

text \<open>
  The exceptions the program can raise.  A function that may raise returns
  \<open>error + 'a\<close>, with \<open>Inl\<close> for the exception; \<open>ebind\<close> sequences two such
  computations and stops at the first exception, as Python does.
\<close>

datatype error = ValueError | ZeroDivisionError | OverflowError

definition ebind :: "error + 'a \<Rightarrow> ('a \<Rightarrow> error + 'b) \<Rightarrow> error + 'b" where
  "ebind m f = (case m of Inl e \<Rightarrow> Inl e | Inr x \<Rightarrow> f x)"

fun emap :: "('a \<Rightarrow> error + 'b) \<Rightarrow> 'a list \<Rightarrow> error + 'b list" where
  "emap f [] = Inr []"
| "emap f (x # xs) = ebind (f x) (\<lambda>y. ebind (emap f xs) (\<lambda>ys. Inr (y # ys)))"

section \<open>Python floats\<close>

text \<open>
  A Python float is an IEEE 754 binary64 value: a finite value (a rational with a 53-bit
  significand), negative zero, an infinity or a NaN.  \<open>Val 0\<close> is positive zero.
  \<open>fl\<close> rounds a positive rational to the nearest binary64 value, ties to even, with
  gradual underflow below \<open>2 ^ -1022\<close>; \<open>mk\<close> adds the sign and the overflow to an
  infinity; \<open>fround\<close> is the rounding every arithmetic operation applies to its exact
  result.
\<close>

datatype pyfloat = Val rat | NegZero | PosInf | NegInf | NaN

definition pow2 :: "int \<Rightarrow> rat" where
  "pow2 e = (if 0 \<le> e then 2 ^ nat e else 1 / 2 ^ nat (- e))"

definition ilog2 :: "rat \<Rightarrow> int" where
  "ilog2 q = (let (n, d) = quotient_of q;
                  e = bitlen n - bitlen d
              in if pow2 e \<le> q then e else e - 1)"

definition rne :: "rat \<Rightarrow> int" where
  "rne x = (let f = \<lfloor>x\<rfloor>; r = x - of_int f
            in if r < 1 / 2 then f
               else if 1 / 2 < r then f + 1
               else if even f then f else f + 1)"

definition fl :: "rat \<Rightarrow> rat" where
  "fl q = (let e = max (- 1074) (ilog2 q - 52)
           in of_int (rne (q / pow2 e)) * pow2 e)"

definition mk :: "bool \<Rightarrow> rat \<Rightarrow> pyfloat" where
  "mk neg m = (if m = 0 then (if neg then NegZero else Val 0)
               else let r = fl m
                    in if r = 0 then (if neg then NegZero else Val 0)
                       else if 1024 \<le> ilog2 r then (if neg then NegInf else PosInf)
                       else Val (if neg then - r else r))"

definition fround :: "rat \<Rightarrow> pyfloat" where
  "fround q = mk (q < 0) \<bar>q\<bar>"

text \<open>The value of a finite float, its sign bit, and the IEEE comparisons.\<close>

fun fval :: "pyfloat \<Rightarrow> rat" where
  "fval (Val r) = r"
| "fval _ = 0"

fun signbit :: "pyfloat \<Rightarrow> bool" where
  "signbit (Val r) = (r < 0)"
| "signbit NegZero = True"
| "signbit NegInf = True"
| "signbit _ = False"

fun ext :: "pyfloat \<Rightarrow> (int \<times> rat) option" where
  "ext (Val r) = Some (0, r)"
| "ext NegZero = Some (0, 0)"
| "ext PosInf = Some (1, 0)"
| "ext NegInf = Some (- 1, 0)"
| "ext NaN = None"

definition flt :: "pyfloat \<Rightarrow> pyfloat \<Rightarrow> bool" where
  "flt a b = (case (ext a, ext b) of
                (Some (i, x), Some (j, y)) \<Rightarrow> i < j \<or> (i = j \<and> x < y)
              | _ \<Rightarrow> False)"

definition fgt :: "pyfloat \<Rightarrow> pyfloat \<Rightarrow> bool" where
  "fgt a b = flt b a"

definition feq :: "pyfloat \<Rightarrow> pyfloat \<Rightarrow> bool" where
  "feq a b = (case (ext a, ext b) of
                (Some x, Some y) \<Rightarrow> x = y
              | _ \<Rightarrow> False)"

definition is_zero :: "pyfloat \<Rightarrow> bool" where
  "is_zero a = (a = Val 0 \<or> a = NegZero)"

definition is_inf :: "pyfloat \<Rightarrow> bool" where
  "is_inf a = (a = PosInf \<or> a = NegInf)"

definition signed_zero :: "bool \<Rightarrow> pyfloat" where
  "signed_zero neg = (if neg then NegZero else Val 0)"

definition signed_inf :: "bool \<Rightarrow> pyfloat" where
  "signed_inf neg = (if neg then NegInf else PosInf)"

text \<open>Arithmetic: the exact result, rounded; the special values as IEEE 754 has them.\<close>

fun fneg :: "pyfloat \<Rightarrow> pyfloat" where
  "fneg (Val r) = (if r = 0 then NegZero else Val (- r))"
| "fneg NegZero = Val 0"
| "fneg PosInf = NegInf"
| "fneg NegInf = PosInf"
| "fneg NaN = NaN"

definition fadd :: "pyfloat \<Rightarrow> pyfloat \<Rightarrow> pyfloat" where
  "fadd a b =
     (if a = NaN \<or> b = NaN then NaN
      else if is_inf a \<and> is_inf b then (if a = b then a else NaN)
      else if is_inf a then a
      else if is_inf b then b
      else if a = NegZero \<and> b = NegZero then NegZero
      else fround (fval a + fval b))"

definition fsub :: "pyfloat \<Rightarrow> pyfloat \<Rightarrow> pyfloat" where
  "fsub a b = fadd a (fneg b)"

definition fmul :: "pyfloat \<Rightarrow> pyfloat \<Rightarrow> pyfloat" where
  "fmul a b =
     (let neg = (signbit a \<noteq> signbit b) in
      if a = NaN \<or> b = NaN then NaN
      else if is_inf a \<or> is_inf b then
             (if is_zero a \<or> is_zero b then NaN else signed_inf neg)
      else mk neg \<bar>fval a * fval b\<bar>)"

text \<open>Python raises \<open>ZeroDivisionError\<close> for every float division by a zero.\<close>

definition fdiv :: "pyfloat \<Rightarrow> pyfloat \<Rightarrow> error + pyfloat" where
  "fdiv a b =
     (let neg = (signbit a \<noteq> signbit b) in
      if is_zero b then Inl ZeroDivisionError
      else if a = NaN \<or> b = NaN then Inr NaN
      else if is_inf a then (if is_inf b then Inr NaN else Inr (signed_inf neg))
      else if is_inf b then Inr (signed_zero neg)
      else Inr (mk neg \<bar>fval a / fval b\<bar>))"

text \<open>
  \<open>round(x, 1)\<close>: the decimal with one digit after the point nearest to the exact value
  of \<open>x\<close> (ties to even), converted back to the nearest float; the sign is kept, and
  infinities and NaN round to themselves.
\<close>

fun round1 :: "pyfloat \<Rightarrow> pyfloat" where
  "round1 (Val q) = mk (q < 0) (of_int (rne (\<bar>q\<bar> * 10)) / 10)"
| "round1 f = f"

section \<open>Python built-ins\<close>

text \<open>
  \<open>float(x)\<close> for an int \<open>x\<close> is the nearest float, and raises \<open>OverflowError\<close> when
  that would be an infinity.
\<close>

definition py_float :: "int \<Rightarrow> error + pyfloat" where
  "py_float x = (let f = fround (of_int x)
                 in if is_inf f then Inl OverflowError else Inr f)"

text \<open>
  \<open>min\<close> and \<open>max\<close> keep the first item and replace it only by an item that is strictly
  better (\<open><\<close> for \<open>min\<close>, \<open>>\<close> for \<open>max\<close>); on an empty list they raise \<open>ValueError\<close>.
\<close>

fun scan_best :: "('a \<Rightarrow> 'a \<Rightarrow> bool) \<Rightarrow> 'a \<Rightarrow> 'a list \<Rightarrow> 'a" where
  "scan_best better b [] = b"
| "scan_best better b (x # xs) = scan_best better (if better x b then x else b) xs"

definition py_extremum :: "('a \<Rightarrow> 'a \<Rightarrow> bool) \<Rightarrow> 'a list \<Rightarrow> error + 'a" where
  "py_extremum better xs =
     (case xs of [] \<Rightarrow> Inl ValueError | x # r \<Rightarrow> Inr (scan_best better x r))"

text \<open>\<open>xs.index(v)\<close>: the first position whose item equals \<open>v\<close>, else \<open>ValueError\<close>.\<close>

fun py_index :: "('a \<Rightarrow> 'a \<Rightarrow> bool) \<Rightarrow> 'a list \<Rightarrow> 'a \<Rightarrow> error + nat" where
  "py_index eq [] v = Inl ValueError"
| "py_index eq (x # xs) v =
     (if eq x v then Inr 0 else ebind (py_index eq xs v) (\<lambda>i. Inr (Suc i)))"

text \<open>\<open>sum\<close> adds from the left, starting from zero.\<close>

definition py_sum :: "pyfloat list \<Rightarrow> pyfloat" where
  "py_sum fs = foldl fadd (Val 0) fs"

section \<open>Minimum and maximum with their position\<close>

text \<open>
  \<open>find_min\<close> and \<open>find_max\<close> return the empty tuple, here \<open>None\<close>, for an empty list.
  \<open>find_min\<close> converts every item to float first and searches the floats; \<open>find_max\<close>
  searches the items as given and converts the maximum at the end.
\<close>

definition find_min :: "int list \<Rightarrow> error + (pyfloat \<times> int) option" where
  "find_min weather_data =
     (if weather_data = [] then Inr None
      else ebind (emap py_float weather_data) (\<lambda>weather_data_float.
           ebind (py_extremum flt weather_data_float) (\<lambda>min_value.
           ebind (py_index feq (rev weather_data_float) min_value) (\<lambda>i.
           Inr (Some (min_value, int (length weather_data_float) - 1 - int i))))))"

definition find_max :: "int list \<Rightarrow> error + (pyfloat \<times> int) option" where
  "find_max weather_data =
     (if weather_data = [] then Inr None
      else ebind (py_extremum (\<lambda>a b. b < a) weather_data) (\<lambda>max_value.
           ebind (py_index (=) (rev weather_data) max_value) (\<lambda>i.
           let max_index = int (length weather_data) - 1 - int i
           in ebind (py_float max_value) (\<lambda>f. Inr (Some (f, max_index))))))"

section \<open>Strings\<close>

text \<open>
  A Python \<open>str\<close> is modelled as the list of its code points, each below 256; the only
  code point outside ASCII that the program writes is the degree sign, U+00B0.
\<close>

definition digit_char :: "int \<Rightarrow> char" where
  "digit_char d = ''0123456789'' ! nat d"

function digits :: "int \<Rightarrow> string" where
  "digits n = (if n < 10 then [digit_char n] else digits (n div 10) @ [digit_char (n mod 10)])"
  by pat_completeness auto
termination
  by (relation "measure nat") auto

definition str_int :: "int \<Rightarrow> string" where
  "str_int x = (if x < 0 then CHR ''-'' # digits (- x) else digits x)"

definition zfill :: "nat \<Rightarrow> string \<Rightarrow> string" where
  "zfill w s = replicate (w - length s) CHR ''0'' @ s"

fun py_join :: "string \<Rightarrow> string list \<Rightarrow> string" where
  "py_join sep [] = []"
| "py_join sep [x] = x"
| "py_join sep (x # y # r) = x @ sep @ py_join sep (y # r)"

text \<open>\<open>str.strip()\<close> removes the white space at both ends.\<close>

definition is_space :: "char \<Rightarrow> bool" where
  "is_space c = (let n = (of_char c :: nat)
                 in (9 \<le> n \<and> n \<le> 13) \<or> (28 \<le> n \<and> n \<le> 32) \<or> n = 133 \<or> n = 160)"

definition py_strip :: "string \<Rightarrow> string" where
  "py_strip s = rev (dropWhile is_space (rev (dropWhile is_space s)))"

subsection \<open>Floats as text\<close>

definition pow10 :: "int \<Rightarrow> rat" where
  "pow10 e = (if 0 \<le> e then 10 ^ nat e else 1 / 10 ^ nat (- e))"

definition ilog10 :: "rat \<Rightarrow> int" where
  "ilog10 m = (let e = (ilog2 m * 30103) div 100000
               in if m < pow10 e then e - 1
                  else if pow10 (e + 1) \<le> m then e + 1
                  else e)"

text \<open>
  \<open>format(x, ".1f")\<close>: the exact value rounded to one decimal, ties to even, written
  with its sign (a negative value that rounds to zero keeps the minus sign).
\<close>

fun format_1f :: "pyfloat \<Rightarrow> string" where
  "format_1f (Val q) =
     (let k = rne (\<bar>q\<bar> * 10)
      in (if q < 0 then ''-'' else '''') @ digits (k div 10) @ ''.'' @ digits (k mod 10))"
| "format_1f NegZero = ''-0.0''"
| "format_1f PosInf = ''inf''"
| "format_1f NegInf = ''-inf''"
| "format_1f NaN = ''nan''"

text \<open>
  \<open>repr\<close> of a float, which \<open>str\<close> and an f-string without format use: the shortest
  string of decimal digits that converts back to the same float, the closest one when
  there are several; written in positional notation when the decimal point falls within
  \<open>-4 < decpt \<le> 16\<close>, with an exponent otherwise.  \<open>shortest n m e\<close> tries
  \<open>18 - n\<close>, \<open>19 - n\<close>, ... digits (one digit for \<open>n = 17\<close>, up to seventeen)
  for the positive float \<open>m\<close> with
  \<open>10 ^ e \<le> m < 10 ^ (e + 1)\<close> and returns the digits as an integer with the power of
  ten of its last digit.
\<close>

fun shortest :: "nat \<Rightarrow> rat \<Rightarrow> int \<Rightarrow> int \<times> int" where
  "shortest 0 m e = (rne (m / pow10 (e - 16)), e - 16)"
| "shortest (Suc n) m e =
     (let p = e - (16 - int n);
          s = m / pow10 p;
          lo = \<lfloor>s\<rfloor>;
          hi = lo + 1;
          ok_lo = (0 < lo \<and> fl (of_int lo * pow10 p) = m);
          ok_hi = (fl (of_int hi * pow10 p) = m);
          d_lo = s - of_int lo;
          d_hi = of_int hi - s
      in if of_int lo = s then (lo, p)
         else if ok_lo \<and> ok_hi then
                (if d_lo < d_hi then (lo, p)
                 else if d_hi < d_lo then (hi, p)
                 else if even lo then (lo, p) else (hi, p))
         else if ok_lo then (lo, p)
         else if ok_hi then (hi, p)
         else shortest n m e)"

function strip_zeros :: "int \<times> int \<Rightarrow> int \<times> int" where
  "strip_zeros (d, p) = (if d \<noteq> 0 \<and> d mod 10 = 0 then strip_zeros (d div 10, p + 1) else (d, p))"
  by pat_completeness auto
termination
  by (relation "measure (\<lambda>(d, p). nat \<bar>d\<bar>)") auto

definition repr_pos :: "rat \<Rightarrow> string" where
  "repr_pos m =
     (let (d, p) = strip_zeros (shortest 17 m (ilog10 m));
          ds = digits d;
          k = int (length ds);
          decpt = k + p
      in if decpt \<le> - 4 \<or> 16 < decpt then
           (take 1 ds @ (if 1 < k then ''.'' @ drop 1 ds else '''') @ ''e''
            @ (if decpt - 1 < 0 then ''-'' else ''+'')
            @ zfill 2 (digits \<bar>decpt - 1\<bar>))
         else if decpt \<le> 0 then ''0.'' @ replicate (nat (- decpt)) CHR ''0'' @ ds
         else if k \<le> decpt then ds @ replicate (nat (decpt - k)) CHR ''0'' @ ''.0''
         else take (nat decpt) ds @ ''.'' @ drop (nat decpt) ds)"

fun float_repr :: "pyfloat \<Rightarrow> string" where
  "float_repr (Val q) =
     (if q = 0 then ''0.0'' else (if q < 0 then ''-'' else '''') @ repr_pos \<bar>q\<bar>)"
| "float_repr NegZero = ''-0.0''"
| "float_repr PosInf = ''inf''"
| "float_repr NegInf = ''-inf''"
| "float_repr NaN = ''nan''"

section \<open>Numbers\<close>

text \<open>The numbers the functions are called with: Python ints and floats.\<close>

datatype number = PyInt int | PyFloat pyfloat

fun to_float :: "number \<Rightarrow> error + pyfloat" where
  "to_float (PyInt i) = py_float i"
| "to_float (PyFloat f) = Inr f"

fun str_number :: "number \<Rightarrow> string" where
  "str_number (PyInt i) = str_int i"
| "str_number (PyFloat f) = float_repr f"

section \<open>Dates\<close>

text \<open>
  A \<open>datetime\<close> as the standard library builds it.  \<open>strftime\<close> below is the format
  \<open>"%A %d %B %Y"\<close>: the weekday name, the day of the month on two digits, the month
  name and the year in decimal, which the C library does not pad (the year 999 is
  written \<open>999\<close>).  The weekday comes from the proleptic Gregorian ordinal of the date
  (Monday is day 0).
\<close>

record datetime =
  dt_year :: int
  dt_month :: int
  dt_day :: int
  dt_hour :: int
  dt_minute :: int
  dt_second :: int

definition is_leap :: "int \<Rightarrow> bool" where
  "is_leap y = (y mod 4 = 0 \<and> (y mod 100 \<noteq> 0 \<or> y mod 400 = 0))"

definition days_in_month :: "int \<Rightarrow> int \<Rightarrow> int" where
  "days_in_month y m =
     (if m = 2 \<and> is_leap y then 29
      else [31, 28, 31, 30, 31, 30, 31, 31, 30, 31, 30, 31] ! nat (m - 1))"

definition days_before_year :: "int \<Rightarrow> int" where
  "days_before_year y = (y - 1) * 365 + (y - 1) div 4 - (y - 1) div 100 + (y - 1) div 400"

definition days_before_month :: "int \<Rightarrow> int \<Rightarrow> int" where
  "days_before_month y m =
     [0, 31, 59, 90, 120, 151, 181, 212, 243, 273, 304, 334] ! nat (m - 1)
     + (if 2 < m \<and> is_leap y then 1 else 0)"

definition toordinal :: "datetime \<Rightarrow> int" where
  "toordinal dt = days_before_year (dt_year dt) + days_before_month (dt_year dt) (dt_month dt) + dt_day dt"

definition weekday :: "datetime \<Rightarrow> int" where
  "weekday dt = (toordinal dt + 6) mod 7"

definition day_name :: "int \<Rightarrow> string" where
  "day_name w = [''Monday'', ''Tuesday'', ''Wednesday'', ''Thursday'', ''Friday'',
                 ''Saturday'', ''Sunday''] ! nat w"

definition month_name :: "int \<Rightarrow> string" where
  "month_name m = [''January'', ''February'', ''March'', ''April'', ''May'', ''June'',
                   ''July'', ''August'', ''September'', ''October'', ''November'',
                   ''December''] ! nat (m - 1)"

definition strftime :: "datetime \<Rightarrow> string" where
  "strftime dt = day_name (weekday dt) @ '' '' @ zfill 2 (digits (dt_day dt)) @ '' ''
                 @ month_name (dt_month dt) @ '' '' @ digits (dt_year dt)"

text \<open>
  \<open>datetime.fromisoformat\<close> belongs to the standard library, and the strings it accepts
  differ between versions of Python; the functions of the program take the parser as the
  parameter \<open>parse\<close>, which returns \<open>None\<close> where the library raises \<open>ValueError\<close>.
  \<open>valid_datetime\<close> says what every \<open>datetime\<close> the library returns satisfies.
  \<open>iso_seconds\<close> is a parser for the forms \<open>YYYY-MM-DD\<close> and \<open>YYYY-MM-DD*HH:MM:SS\<close>
  (any character for \<open>*\<close>), which every version accepts; \<open>fromisoformat\<close>, further
  down, is the parser of CPython 3.11.
\<close>

definition valid_datetime :: "datetime \<Rightarrow> bool" where
  "valid_datetime dt =
     (1 \<le> dt_year dt \<and> dt_year dt \<le> 9999 \<and> 1 \<le> dt_month dt \<and> dt_month dt \<le> 12
      \<and> 1 \<le> dt_day dt \<and> dt_day dt \<le> days_in_month (dt_year dt) (dt_month dt)
      \<and> 0 \<le> dt_hour dt \<and> dt_hour dt < 24 \<and> 0 \<le> dt_minute dt \<and> dt_minute dt < 60
      \<and> 0 \<le> dt_second dt \<and> dt_second dt < 60)"

definition is_digit :: "char \<Rightarrow> bool" where
  "is_digit c = (c \<in> set ''0123456789'')"

definition digit_val :: "char \<Rightarrow> int" where
  "digit_val c = int (of_char c) - 48"

definition parse_digits :: "string \<Rightarrow> int option" where
  "parse_digits s =
     (if s \<noteq> [] \<and> list_all is_digit s
      then Some (foldl (\<lambda>a c. 10 * a + digit_val c) 0 s) else None)"

definition make_datetime :: "int \<Rightarrow> int \<Rightarrow> int \<Rightarrow> int \<Rightarrow> int \<Rightarrow> int \<Rightarrow> datetime option" where
  "make_datetime y mo d h mi s =
     (let dt = \<lparr>dt_year = y, dt_month = mo, dt_day = d, dt_hour = h, dt_minute = mi, dt_second = s\<rparr>
      in if valid_datetime dt then Some dt else None)"

definition parse_date :: "string \<Rightarrow> (int \<times> int \<times> int) option" where
  "parse_date s =
     (if length s = 10 \<and> s ! 4 = CHR ''-'' \<and> s ! 7 = CHR ''-'' then
        (case (parse_digits (take 4 s), parse_digits (take 2 (drop 5 s)),
               parse_digits (take 2 (drop 8 s))) of
           (Some y, Some m, Some d) \<Rightarrow> Some (y, m, d)
         | _ \<Rightarrow> None)
      else None)"

definition parse_time :: "string \<Rightarrow> (int \<times> int \<times> int) option" where
  "parse_time s =
     (if length s = 8 \<and> s ! 2 = CHR '':'' \<and> s ! 5 = CHR '':'' then
        (case (parse_digits (take 2 s), parse_digits (take 2 (drop 3 s)),
               parse_digits (take 2 (drop 6 s))) of
           (Some h, Some m, Some sec) \<Rightarrow> Some (h, m, sec)
         | _ \<Rightarrow> None)
      else None)"

definition iso_seconds :: "string \<Rightarrow> datetime option" where
  "iso_seconds s =
     (case parse_date (take 10 s) of
        None \<Rightarrow> None
      | Some (y, mo, d) \<Rightarrow>
          if length s = 10 then make_datetime y mo d 0 0 0
          else if length s = 19 then
            (case parse_time (drop 11 s) of
               None \<Rightarrow> None
             | Some (h, mi, sec) \<Rightarrow> make_datetime y mo d h mi sec)
          else None)"

text \<open>
  The grammar that the specification names, a date and a time to the second:
  \<open>iso8601_datetime\<close> reads the nineteen characters \<open>YYYY-MM-DDTHH:MM:SS\<close> of the
  extended format of ISO 8601, which must form a date of the calendar and a time of day.
\<close>

definition iso8601_datetime :: "string \<Rightarrow> datetime option" where
  "iso8601_datetime s = (if length s = 19 \<and> s ! 10 = CHR ''T'' then iso_seconds s else None)"

subsection \<open>The library's parser\<close>

text \<open>
  \<open>fromisoformat\<close> follows \<open>datetime.fromisoformat\<close> of CPython 3.11, which works on the
  UTF-8 bytes of the string, a zero byte standing after the last one.  It accepts a date
  (\<open>YYYY-MM-DD\<close>, \<open>YYYYMMDD\<close>, or an ISO week date \<open>YYYY-Www[-D]\<close>, \<open>YYYYWww[D]\<close>),
  then optionally any one character and a time \<open>HH[:MM[:SS[.ffffff]]]\<close> (or without the
  colons), then optionally \<open>Z\<close> or an offset \<open>+HH[:MM[:SS[.ffffff]]]\<close>; the fields must
  form a date of the years 1 to 9999 and a time of day, and the offset must be less than
  a day.  The function names are those of the C source.
\<close>

definition utf8 :: "string \<Rightarrow> nat list" where
  "utf8 s = concat (map (\<lambda>c. let n = (of_char c :: nat)
                              in if n < 128 then [n] else [192 + n div 64, 128 + n mod 64]) s)"

definition byte_at :: "nat list \<Rightarrow> nat \<Rightarrow> nat" where
  "byte_at b i = (if i < length b then b ! i else 0)"

definition isdig :: "nat \<Rightarrow> bool" where
  "isdig c = (48 \<le> c \<and> c \<le> 57)"

fun parse_digits_at :: "nat list \<Rightarrow> nat \<Rightarrow> nat \<Rightarrow> int \<Rightarrow> (int \<times> nat) option" where
  "parse_digits_at b p 0 v = Some (v, p)"
| "parse_digits_at b p (Suc k) v =
     (if isdig (byte_at b p) then parse_digits_at b (Suc p) k (v * 10 + (int (byte_at b p) - 48))
      else None)"

function skip_digits :: "nat list \<Rightarrow> nat \<Rightarrow> nat" where
  "skip_digits b p = (if p < length b \<and> isdig (b ! p) then skip_digits b (Suc p) else p)"
  by pat_completeness auto
termination
  by (relation "measure (\<lambda>(b, p). length b - p)") auto

definition month_start :: "int \<Rightarrow> int" where
  "month_start m = [0, 31, 59, 90, 120, 151, 181, 212, 243, 273, 304, 334] ! nat (m - 1)"

definition ymd_to_ord :: "int \<Rightarrow> int \<Rightarrow> int \<Rightarrow> int" where
  "ymd_to_ord y m d = days_before_year y + days_before_month y m + d"

definition iso_week1_monday :: "int \<Rightarrow> int" where
  "iso_week1_monday y =
     (let first_day = ymd_to_ord y 1 1;
          first_weekday = (first_day + 6) mod 7;
          week1_monday = first_day - first_weekday
      in if 3 < first_weekday then week1_monday + 7 else week1_monday)"

definition ord_to_ymd :: "int \<Rightarrow> int \<times> int \<times> int" where
  "ord_to_ymd ordinal =
     (let n = ordinal - 1;
          n400 = n div 146097; na = n mod 146097;
          n100 = na div 36524; nb = na mod 36524;
          n4 = nb div 1461; nc = nb mod 1461;
          n1 = nc div 365; r = nc mod 365;
          y = n400 * 400 + 1 + n100 * 100 + n4 * 4 + n1
      in if n1 = 4 \<or> n100 = 4 then (y - 1, 12, 31)
         else let leapyear = (n1 = 3 \<and> (n4 \<noteq> 24 \<or> n100 = 3));
                  m = (r + 50) div 32;
                  preceding = month_start m + (if 2 < m \<and> leapyear then 1 else 0)
              in if r < preceding
                 then (y, m - 1, r - (preceding - days_in_month y (m - 1)) + 1)
                 else (y, m, r - preceding + 1))"

text \<open>
  For the year 0 the library's arithmetic on ordinals ends in a month outside 1 to 12,
  which the constructor refuses: the outcome is the same error.
\<close>

definition iso_to_ymd :: "int \<Rightarrow> int \<Rightarrow> int \<Rightarrow> (int \<times> int \<times> int) option" where
  "iso_to_ymd y w d =
     (if y < 1 then None
      else if (w \<le> 0 \<or> 53 \<le> w)
              \<and> \<not> (w = 53 \<and> (let first_weekday = (ymd_to_ord y 1 1 + 6) mod 7
                              in first_weekday = 3 \<or> (first_weekday = 2 \<and> is_leap y)))
      then None
      else if d \<le> 0 \<or> 8 \<le> d then None
      else Some (ord_to_ymd (iso_week1_monday y + (w - 1) * 7 + d - 1)))"

definition find_isoformat_datetime_separator :: "nat list \<Rightarrow> nat option" where
  "find_isoformat_datetime_separator b =
     (let n = length b in
      if n = 7 then Some 7
      else if byte_at b 4 = 45 then
        (if byte_at b 5 = 87 then
           (if n < 8 then None
            else if 8 < n \<and> byte_at b 8 = 45 then
              (if n = 9 then None
               else if 10 < n \<and> isdig (byte_at b 10) then Some 8
               else Some 10)
            else Some 8)
         else Some 10)
      else if byte_at b 4 = 87 then
        (let idx = skip_digits b 7
         in if idx < 9 then Some idx else if even idx then Some 7 else Some 8)
      else Some 8)"

definition parse_isoformat_date :: "nat list \<Rightarrow> nat \<Rightarrow> (int \<times> int \<times> int) option" where
  "parse_isoformat_date b sep =
     (case parse_digits_at b 0 4 0 of
        None \<Rightarrow> None
      | Some (y, p) \<Rightarrow>
          let uses_separator = (byte_at b p = 45);
              p1 = (if uses_separator then Suc p else p)
          in if byte_at b p1 = 87 then
               (case parse_digits_at b (Suc p1) 2 0 of
                  None \<Rightarrow> None
                | Some (iso_week, p2) \<Rightarrow>
                    if p2 < sep then
                      (if uses_separator \<and> byte_at b p2 \<noteq> 45 then None
                       else case parse_digits_at b (if uses_separator then Suc p2 else p2) 1 0 of
                              None \<Rightarrow> None
                            | Some (iso_day, p3) \<Rightarrow> iso_to_ymd y iso_week iso_day)
                    else iso_to_ymd y iso_week 1)
             else
               (case parse_digits_at b p1 2 0 of
                  None \<Rightarrow> None
                | Some (m, p2) \<Rightarrow>
                    if uses_separator \<and> byte_at b p2 \<noteq> 45 then None
                    else case parse_digits_at b (if uses_separator then Suc p2 else p2) 2 0 of
                           None \<Rightarrow> None
                         | Some (d, p3) \<Rightarrow> Some (y, m, d)))"

text \<open>
  The loop of \<open>parse_hh_mm_ss_ff\<close> over hour, minute and second: \<open>k\<close> fields are left,
  \<open>vals\<close> are the fields read so far.  It ends with \<open>Inl rv\<close> when the function returns
  there (\<open>rv\<close> says that the text goes on), or with \<open>Inr p\<close> when a fraction follows at
  \<open>p\<close>.
\<close>

fun hms_loop ::
    "nat list \<Rightarrow> nat \<Rightarrow> nat \<Rightarrow> bool \<Rightarrow> nat \<Rightarrow> int list \<Rightarrow> (int list \<times> (bool + nat)) option" where
  "hms_loop b p_end 0 has_separator p vals = Some (vals, Inr p)"
| "hms_loop b p_end (Suc k) has_separator p vals =
     (case parse_digits_at b p 2 0 of
        None \<Rightarrow> None
      | Some (v, p1) \<Rightarrow>
          let c = byte_at b p1;
              hs = (if vals = [] then c = 58 else has_separator)
          in if p_end \<le> Suc p1 then Some (vals @ [v], Inl (c \<noteq> 0))
             else if hs \<and> c = 58 then hms_loop b p_end k hs (Suc p1) (vals @ [v])
             else if c = 46 \<or> c = 44 then Some (vals @ [v], Inr (Suc p1))
             else if \<not> hs then hms_loop b p_end k hs p1 (vals @ [v])
             else None)"

definition parse_hh_mm_ss_ff :: "nat list \<Rightarrow> nat \<Rightarrow> nat \<Rightarrow> (int list \<times> int \<times> bool) option" where
  "parse_hh_mm_ss_ff b p p_end =
     (case hms_loop b p_end 3 True p [] of
        None \<Rightarrow> None
      | Some (vals, Inl rv) \<Rightarrow> Some (vals, 0, rv)
      | Some (vals, Inr q) \<Rightarrow>
          let to_parse = min 6 (p_end - q)
          in case parse_digits_at b q to_parse 0 of
               None \<Rightarrow> None
             | Some (us, q1) \<Rightarrow>
                 Some (vals, us * 10 ^ (6 - to_parse), byte_at b (skip_digits b q1) \<noteq> 0))"

definition field :: "int list \<Rightarrow> nat \<Rightarrow> int" where
  "field vals i = (if i < length vals then vals ! i else 0)"

function find_tz :: "nat list \<Rightarrow> nat \<Rightarrow> nat \<Rightarrow> nat" where
  "find_tz b t p_end =
     (if byte_at b t = 90 \<or> byte_at b t = 43 \<or> byte_at b t = 45 then t
      else if Suc t < p_end then find_tz b (Suc t) p_end
      else Suc t)"
  by pat_completeness auto
termination
  by (relation "measure (\<lambda>(b, t, p_end). p_end - t)") auto

text \<open>
  The time of day and whether the offset, if there is one, is shorter than a day.
\<close>

definition parse_isoformat_time :: "nat list \<Rightarrow> nat \<Rightarrow> nat \<Rightarrow> (int list \<times> bool) option" where
  "parse_isoformat_time b p n =
     (let p_end = p + n; t = find_tz b p p_end in
      case parse_hh_mm_ss_ff b p t of
        None \<Rightarrow> None
      | Some (vals, us, rv) \<Rightarrow>
          if t = p_end then (if rv then None else Some (vals, True))
          else if byte_at b t = 90 then (if byte_at b (Suc t) \<noteq> 0 then None else Some (vals, True))
          else case parse_hh_mm_ss_ff b (Suc t) p_end of
                 None \<Rightarrow> None
               | Some (tz, tzus, tzrv) \<Rightarrow>
                   if tzrv then None
                   else Some (vals, (field tz 0 * 3600 + field tz 1 * 60 + field tz 2) * 1000000
                                    + tzus < 86400 * 1000000))"

definition fromisoformat :: "string \<Rightarrow> datetime option" where
  "fromisoformat s =
     (let b = utf8 s; n = length b in
      if n < 7 then None
      else case find_isoformat_datetime_separator b of
        None \<Rightarrow> None
      | Some sep \<Rightarrow>
          (case parse_isoformat_date b sep of
             None \<Rightarrow> None
           | Some (y, mo, d) \<Rightarrow>
               if sep < n then
                 (let c = byte_at b sep;
                      p = sep + (if c < 128 then 1 else if c div 16 = 14 then 3
                                 else if c div 16 = 15 then 4 else 2)
                  in case parse_isoformat_time b p (n - p) of
                       None \<Rightarrow> None
                     | Some (vals, tz_ok) \<Rightarrow>
                         if tz_ok then make_datetime y mo d (field vals 0) (field vals 1)
                                         (field vals 2)
                         else None)
               else make_datetime y mo d 0 0 0))"

section \<open>The program\<close>

type_synonym weather_record = "string \<times> int \<times> int"

definition DEGREE_SYMBOL :: string where
  "DEGREE_SYMBOL = [CHR 0xB0, CHR ''C'']"

definition format_temperature :: "number \<Rightarrow> string" where
  "format_temperature temp = str_number temp @ DEGREE_SYMBOL"

definition convert_date :: "(string \<Rightarrow> datetime option) \<Rightarrow> string \<Rightarrow> error + string" where
  "convert_date parse iso_string =
     (case parse (take 19 iso_string) of
        None \<Rightarrow> Inl ValueError
      | Some dt \<Rightarrow> Inr (strftime dt))"

definition convert_f_to_c :: "number \<Rightarrow> error + pyfloat" where
  "convert_f_to_c temp_in_fahrenheit =
     ebind (to_float temp_in_fahrenheit) (\<lambda>f.
     ebind (fdiv (fmul (fsub f (Val 32)) (Val 5)) (Val 9)) (\<lambda>q.
     Inr (round1 q)))"


definition summary_text ::
    "nat \<Rightarrow> pyfloat \<Rightarrow> string \<Rightarrow> pyfloat \<Rightarrow> string \<Rightarrow> pyfloat \<Rightarrow> pyfloat \<Rightarrow> string" where
  "summary_text num_days c_min min_day c_max max_day c_avg_min c_avg_max =
     str_int (int num_days) @ '' Day Overview'' @ [CHR 0x0A]
     @ ''  The lowest temperature will be '' @ format_temperature (PyFloat c_min)
     @ '', and will occur on '' @ min_day @ ''.'' @ [CHR 0x0A]
     @ ''  The highest temperature will be '' @ format_temperature (PyFloat c_max)
     @ '', and will occur on '' @ max_day @ ''.'' @ [CHR 0x0A]
     @ ''  The average low this week is '' @ format_1f c_avg_min @ DEGREE_SYMBOL @ ''.''
     @ [CHR 0x0A]
     @ ''  The average high this week is '' @ format_1f c_avg_max @ DEGREE_SYMBOL @ ''.''"

definition generate_summary ::
    "(string \<Rightarrow> datetime option) \<Rightarrow> weather_record list \<Rightarrow> error + string" where
  "generate_summary parse weather_data =
     (let num_days = length weather_data in
      ebind (emap (\<lambda>day. py_float (fst (snd day))) weather_data) (\<lambda>min_temps.
      ebind (emap (\<lambda>day. py_float (snd (snd day))) weather_data) (\<lambda>max_temps.
      ebind (py_extremum flt min_temps) (\<lambda>min_temp.
      ebind (py_index feq min_temps min_temp) (\<lambda>min_index.
      ebind (convert_date parse (fst (weather_data ! min_index))) (\<lambda>min_day.
      ebind (py_extremum fgt max_temps) (\<lambda>max_temp.
      ebind (py_index feq max_temps max_temp) (\<lambda>max_index.
      ebind (convert_date parse (fst (weather_data ! max_index))) (\<lambda>max_day.
      ebind (py_float (int num_days)) (\<lambda>n.
      ebind (fdiv (py_sum min_temps) n) (\<lambda>avg_min.
      ebind (fdiv (py_sum max_temps) n) (\<lambda>avg_max.
      ebind (convert_f_to_c (PyFloat min_temp)) (\<lambda>c_min.
      ebind (convert_f_to_c (PyFloat max_temp)) (\<lambda>c_max.
      ebind (convert_f_to_c (PyFloat avg_min)) (\<lambda>c_avg_min.
      ebind (convert_f_to_c (PyFloat avg_max)) (\<lambda>c_avg_max.
      Inr (summary_text num_days c_min min_day c_max max_day c_avg_min c_avg_max
           @ [CHR 0x0A])))))))))))))))))"

definition day_lines ::
    "(string \<Rightarrow> datetime option) \<Rightarrow> weather_record \<Rightarrow> error + string list" where
  "day_lines parse day =
     ebind (convert_date parse (fst day)) (\<lambda>date_str.
     ebind (py_float (fst (snd day))) (\<lambda>f_min.
     ebind (convert_f_to_c (PyFloat f_min)) (\<lambda>c_min.
     ebind (py_float (snd (snd day))) (\<lambda>f_max.
     ebind (convert_f_to_c (PyFloat f_max)) (\<lambda>c_max.
     Inr [''---- '' @ date_str @ '' ----'',
          ''  Minimum Temperature: '' @ format_temperature (PyFloat c_min),
          ''  Maximum Temperature: '' @ format_temperature (PyFloat c_max) @ [CHR 0x0A]])))))"

definition generate_daily_summary ::
    "(string \<Rightarrow> datetime option) \<Rightarrow> weather_record list \<Rightarrow> error + string" where
  "generate_daily_summary parse weather_data =
     ebind (emap (day_lines parse) weather_data) (\<lambda>blocks.
     Inr (py_strip (py_join [CHR 0x0A] (concat blocks)) @ [CHR 0x0A] @ [CHR 0x0A]))"

section \<open>Describing the reports\<close>

text \<open>
  \<open>split_nl\<close> is \<open>str.split("\n")\<close>, used to count the lines of a report.
  \<open>block_text\<close> is the block of one day in the daily summary: the header line, the two
  temperature lines and one empty line.
\<close>

fun split_nl :: "string \<Rightarrow> string list" where
  "split_nl [] = [[]]"
| "split_nl (c # cs) =
     (if c = CHR 0x0A then [] # split_nl cs
      else (case split_nl cs of [] \<Rightarrow> [[c]] | l # ls \<Rightarrow> (c # l) # ls))"

definition block_text :: "string \<Rightarrow> pyfloat \<Rightarrow> pyfloat \<Rightarrow> string" where
  "block_text date_str c_min c_max =
     ''---- '' @ date_str @ '' ----'' @ [CHR 0x0A]
     @ ''  Minimum Temperature: '' @ format_temperature (PyFloat c_min) @ [CHR 0x0A]
     @ ''  Maximum Temperature: '' @ format_temperature (PyFloat c_max) @ [CHR 0x0A]
     @ [CHR 0x0A]"

text \<open>
  The numbers that two and four decimal digits denote, the digits given as bytes.
\<close>

definition dv2 :: "nat \<Rightarrow> nat \<Rightarrow> int" where
  "dv2 a b = (int a - 48) * 10 + (int b - 48)"

definition dv4 :: "nat \<Rightarrow> nat \<Rightarrow> nat \<Rightarrow> nat \<Rightarrow> int" where
  "dv4 a b c d = (((int a - 48) * 10 + (int b - 48)) * 10 + (int c - 48)) * 10 + (int d - 48)"

section \<open>Basic facts\<close>

lemma ebind_Inr [simp]: "ebind (Inr x) f = f x"
  by (simp add: ebind_def)

lemma ebind_Inl [simp]: "ebind (Inl e) f = Inl e"
  by (simp add: ebind_def)

lemma ebind_eq_Inr: "ebind m f = Inr y \<longleftrightarrow> (\<exists>x. m = Inr x \<and> f x = Inr y)"
  by (cases m) simp_all

lemma fround_zero [simp]: "fround 0 = Val 0"
  by (simp add: fround_def mk_def)

lemma py_float_zero [simp]: "py_float 0 = Inr (Val 0)"
  by (simp add: py_float_def is_inf_def)

lemma emap_replicate: "f x = Inr y \<Longrightarrow> emap f (replicate n x) = Inr (replicate n y)"
  by (induction n) simp_all

lemma scan_best_replicate: "\<not> better x x \<Longrightarrow> scan_best better x (replicate n x) = x"
  by (induction n) simp_all

lemma flt_irrefl [simp]: "\<not> flt a a"
  by (cases a) (simp_all add: flt_def)

lemma feq_Val [simp]: "feq (Val x) (Val y) \<longleftrightarrow> x = y"
  by (simp add: feq_def)

lemma find_min_nonempty: "v \<noteq> [] \<Longrightarrow> find_min v \<noteq> Inr None"
  by (auto simp: find_min_def ebind_eq_Inr)

lemma find_max_nonempty: "v \<noteq> [] \<Longrightarrow> find_max v \<noteq> Inr None"
  by (auto simp: find_max_def ebind_eq_Inr Let_def)

lemma find_min_zeros: "find_min (replicate (Suc n) 0) = Inr (Some (Val 0, int n))"
proof -
  have fs: "emap py_float (replicate (Suc n) 0) = Inr (replicate (Suc n) (Val 0))"
    by (rule emap_replicate) simp
  have m: "py_extremum flt (replicate (Suc n) (Val 0)) = Inr (Val 0)"
    by (simp add: py_extremum_def scan_best_replicate)
  have i: "py_index feq (rev (replicate (Suc n) (Val 0))) (Val 0) = Inr 0"
    by (simp add: replicate_append_same)
  show ?thesis
    unfolding find_min_def using fs m i by (simp del: replicate.simps rev_replicate)
qed

lemma find_max_zeros: "find_max (replicate (Suc n) 0) = Inr (Some (Val 0, int n))"
proof -
  have m: "py_extremum (\<lambda>a b. b < a) (replicate (Suc n) (0::int)) = Inr 0"
    by (simp add: py_extremum_def scan_best_replicate)
  have i: "py_index (=) (rev (replicate (Suc n) (0::int))) 0 = Inr 0"
    by (simp add: replicate_append_same)
  show ?thesis
    unfolding find_max_def using m i by (simp del: replicate.simps rev_replicate)
qed

text \<open>
  C4: \<open>find_min\<close> and \<open>find_max\<close> return the empty result on the empty list and raise
  nothing; the empty list is the only input with the empty result; a non-empty list of
  zeros is treated as data, with value \<open>0.0\<close> and the last index.
\<close>

theorem find_min_max_empty_result:
  "find_min [] = Inr None \<and> find_max [] = Inr None
   \<and> (find_min v = Inr None \<longleftrightarrow> v = [])
   \<and> (find_max v = Inr None \<longleftrightarrow> v = [])
   \<and> find_min (replicate (Suc n) 0) = Inr (Some (Val 0, int n))
   \<and> find_max (replicate (Suc n) 0) = Inr (Some (Val 0, int n))"
proof -
  have e1: "find_min [] = Inr None" by (simp add: find_min_def)
  have e2: "find_max [] = Inr None" by (simp add: find_max_def)
  have o1: "find_min v = Inr None \<longleftrightarrow> v = []" using e1 find_min_nonempty by blast
  have o2: "find_max v = Inr None \<longleftrightarrow> v = []" using e2 find_max_nonempty by blast
  show ?thesis using e1 e2 o1 o2 find_min_zeros find_max_zeros by blast
qed

lemma rne_of_int [simp]: "rne (of_int k) = k"
  by (simp add: rne_def)

lemma rne_numeral [simp]: "rne (numeral k) = numeral k"
  using rne_of_int[of "numeral k"] by simp

lemma pow2_pos [simp]: "0 < pow2 e"
  by (simp add: pow2_def)

lemma bitlen_le_pow: "0 < n \<Longrightarrow> n < 2 ^ k \<Longrightarrow> bitlen n \<le> int k"
proof -
  assume n: "0 < n" and k: "n < 2 ^ k"
  from bitlen_bounds[OF n] have "(2::int) ^ nat (bitlen n - 1) \<le> n" by simp
  with k have "(2::int) ^ nat (bitlen n - 1) < 2 ^ k" by linarith
  then have "nat (bitlen n - 1) < k" by simp
  then show ?thesis by linarith
qed

lemma ilog2_of_int: "0 < n \<Longrightarrow> ilog2 (of_int n) = bitlen n - 1"
proof -
  assume n: "0 < n"
  then have b1: "1 \<le> bitlen n" using bitlen_eq_zero_iff[of n] bitlen_nonneg[of n] by linarith
  have one: "bitlen 1 = 1" by (subst compute_bitlen) simp
  from bitlen_bounds[OF n] have le: "(2::int) ^ nat (bitlen n - 1) \<le> n" by simp
  have "pow2 (bitlen n - 1) = of_int (2 ^ nat (bitlen n - 1))"
    using b1 by (simp add: pow2_def)
  also have "\<dots> \<le> of_int n" using le by (simp only: of_int_le_iff)
  finally show ?thesis
    by (simp add: ilog2_def quotient_of_int one)
qed

lemma fl_of_int: "0 < n \<Longrightarrow> n \<le> 2 ^ 53 \<Longrightarrow> fl (of_int n) = of_int n"
proof -
  assume n: "0 < n" and le: "n \<le> 2 ^ 53"
  let ?L = "bitlen n - 1"
  have L: "ilog2 (of_int n) = ?L" by (rule ilog2_of_int[OF n])
  have b1: "1 \<le> bitlen n" using n bitlen_eq_zero_iff[of n] bitlen_nonneg[of n] by linarith
  show ?thesis
  proof (cases "n < 2 ^ 53")
    case True
    then have "bitlen n \<le> 53" using bitlen_le_pow[OF n, of 53] by simp
    then have e: "max (- 1074) (?L - 52) = ?L - 52" and neg: "?L - 52 \<le> 0" using b1 by auto
    define a where "a = nat (52 - ?L)"
    have p: "pow2 (?L - 52) = 1 / 2 ^ a"
    proof (cases "?L - 52 = 0")
      case True then show ?thesis by (simp add: pow2_def a_def)
    next
      case False
      with neg have "?L - 52 < 0" by linarith
      then show ?thesis by (simp add: pow2_def a_def)
    qed
    have q: "(of_int n :: rat) / (1 / 2 ^ a) = of_int (n * 2 ^ a)" by simp
    show ?thesis
      unfolding fl_def L e Let_def p q rne_of_int by simp
  next
    case False
    with le have eq: "n = 2 ^ 53" by linarith
    have b: "bitlen n = 54"
      unfolding eq using bitlen_pow2[of 1 53] by (simp add: compute_bitlen[of 1])
    have q: "(of_int n :: rat) / 2 = of_int (2 ^ 52)" unfolding eq by simp
    show ?thesis
      unfolding fl_def L b Let_def by (simp add: pow2_def q) (simp add: eq)
  qed
qed

lemma fround_of_int: "\<bar>n\<bar> \<le> 2 ^ 53 \<Longrightarrow> fround (of_int n) = Val (of_int n)"
proof (cases "n = 0")
  case True then show ?thesis by simp
next
  case False
  assume le: "\<bar>n\<bar> \<le> 2 ^ 53"
  from False have pos: "0 < \<bar>n\<bar>" by simp
  have r: "fl (of_int \<bar>n\<bar>) = of_int \<bar>n\<bar>" by (rule fl_of_int[OF pos le])
  have "(2::int) ^ 53 < 2 ^ 54" by simp
  with le have "\<bar>n\<bar> < 2 ^ 54" by linarith
  then have "bitlen \<bar>n\<bar> \<le> 54" using bitlen_le_pow[OF pos, of 54] by simp
  then have small: "\<not> 1024 \<le> ilog2 (of_int \<bar>n\<bar>)"
    unfolding ilog2_of_int[OF pos] by linarith
  have abs: "\<bar>of_int n :: rat\<bar> = of_int \<bar>n\<bar>" by simp
  show ?thesis
    unfolding fround_def mk_def abs Let_def r using False small by (auto simp: abs_if)
qed

lemma py_float_exact: "\<bar>n\<bar> \<le> 2 ^ 53 \<Longrightarrow> py_float n = Inr (Val (of_int n))"
  by (simp add: py_float_def fround_of_int is_inf_def)

lemma emap_exact: "(\<And>x. x \<in> set xs \<Longrightarrow> f x = Inr (g x)) \<Longrightarrow> emap f xs = Inr (map g xs)"
  by (induction xs) simp_all











text \<open>
  C10: on the empty dataset \<open>generate_daily_summary\<close> raises nothing and returns the
  string of exactly two newline characters.
\<close>

theorem generate_daily_summary_empty:
  "generate_daily_summary parse [] = Inr [CHR 0x0A, CHR 0x0A]"
  by (simp add: generate_daily_summary_def py_strip_def)

lemma rne_nearest: "\<bar>of_int (rne x) - x\<bar> \<le> 1 / 2"
proof -
  define f where "f = \<lfloor>x\<rfloor>"
  have a: "of_int f \<le> x" "x < of_int f + 1" unfolding f_def by linarith+
  show ?thesis
    unfolding rne_def Let_def f_def[symmetric] using a
    by (cases "x - of_int f < 1 / 2"; cases "1 / 2 < x - of_int f"; simp add: abs_if; linarith)
qed

lemma fdiv_nine: "fdiv a (Val 9) = Inr (if a = NaN then NaN
     else if is_inf a then signed_inf (signbit a) else mk (signbit a) \<bar>fval a / 9\<bar>)"
  by (simp add: fdiv_def is_zero_def is_inf_def Let_def)

lemma convert_f_to_c_float:
  "\<exists>q. fdiv (fmul (fsub f (Val 32)) (Val 5)) (Val 9) = Inr q
       \<and> convert_f_to_c (PyFloat f) = Inr (round1 q)"
  by (simp add: convert_f_to_c_def fdiv_nine)

lemma convert_f_to_c_32: "convert_f_to_c (PyInt 32) = Inr (Val 0)"
  by code_simp

lemma convert_f_to_c_212: "convert_f_to_c (PyInt 212) = Inr (Val 100)"
  by code_simp

lemma convert_f_to_c_98_6: "convert_f_to_c (PyFloat (fround (986 / 10))) = Inr (Val 37)"
  by code_simp

text \<open>
  C5: \<open>convert_f_to_c\<close> returns \<open>(temp - 32) * 5 / 9\<close>, computed in floats, rounded to
  one decimal: the result is \<open>round1\<close> of the float quotient, and \<open>round1\<close> of a finite
  \<open>x\<close> is the float of \<open>k / 10\<close> for an integer \<open>k\<close> nearest to \<open>10 * \<bar>x\<bar>\<close>.  At 32, 212
  and 98.6 (the float nearest to 98.6) the results are 0.0, 100.0 and 37.0.
\<close>

theorem convert_f_to_c_spec:
  "(\<exists>q. fdiv (fmul (fsub f (Val 32)) (Val 5)) (Val 9) = Inr q
         \<and> convert_f_to_c (PyFloat f) = Inr (round1 q))
   \<and> (\<exists>k. round1 (Val x) = mk (x < 0) (of_int k / 10) \<and> \<bar>of_int k - \<bar>x\<bar> * 10\<bar> \<le> 1 / 2)
   \<and> convert_f_to_c (PyInt 32) = Inr (Val 0)
   \<and> convert_f_to_c (PyInt 212) = Inr (Val 100)
   \<and> convert_f_to_c (PyFloat (fround (986 / 10))) = Inr (Val 37)"
proof -
  have r: "\<exists>k. round1 (Val x) = mk (x < 0) (of_int k / 10) \<and> \<bar>of_int k - \<bar>x\<bar> * 10\<bar> \<le> 1 / 2"
    using rne_nearest[of "\<bar>x\<bar> * 10"] by (intro exI[of _ "rne (\<bar>x\<bar> * 10)"]) simp
  show ?thesis
    using convert_f_to_c_float[of f] r convert_f_to_c_32 convert_f_to_c_212 convert_f_to_c_98_6
    by blast
qed

lemma Min_insert_min:
  "finite S \<Longrightarrow> Min (insert (min x b) S) = Min (insert b (insert x S))"
  by (cases "S = {}") (simp_all add: min.commute min.left_commute min.assoc)

lemma Max_insert_max:
  "finite S \<Longrightarrow> Max (insert (max x b) S) = Max (insert b (insert x S))"
  by (cases "S = {}") (simp_all add: max.commute max.left_commute max.assoc)

lemma scan_best_Min:
  "scan_best (\<lambda>a b. a < b) (b::'a::linorder) xs = Min (insert b (set xs))"
proof (induction xs arbitrary: b)
  case Nil
  then show ?case by simp
next
  case (Cons x xs)
  have "(if x < b then x else b) = min x b" by (auto simp: min_def)
  then show ?case using Cons.IH[of "min x b"] by (simp add: Min_insert_min)
qed

lemma scan_best_Max:
  "scan_best (\<lambda>a b. b < a) (b::'a::linorder) xs = Max (insert b (set xs))"
proof (induction xs arbitrary: b)
  case Nil
  then show ?case by simp
next
  case (Cons x xs)
  have "(if b < x then x else b) = max x b" by (auto simp: max_def)
  then show ?case using Cons.IH[of "max x b"] by (simp add: Max_insert_max)
qed

lemma scan_best_map:
  "(\<And>x y. better' (f x) (f y) = better x y) \<Longrightarrow>
   scan_best better' (f b) (map f xs) = f (scan_best better b xs)"
  by (induction xs arbitrary: b) (simp_all add: if_distrib[of f, symmetric])

lemma py_index_map:
  "(\<And>x y. eq' (f x) (f y) = (x = y)) \<Longrightarrow>
   py_index eq' (map f xs) (f v) = py_index (=) xs v"
  by (induction xs) simp_all

lemma py_index_first:
  "v \<in> set xs \<Longrightarrow>
   \<exists>i. py_index (=) xs v = Inr i \<and> i < length xs \<and> xs ! i = v \<and> (\<forall>j<i. xs ! j \<noteq> v)"
proof (induction xs)
  case Nil
  then show ?case by simp
next
  case (Cons x xs)
  show ?case
  proof (cases "x = v")
    case True
    then show ?thesis by simp
  next
    case False
    with Cons.prems have "v \<in> set xs" by simp
    from Cons.IH[OF this] obtain i where
      i: "py_index (=) xs v = Inr i" "i < length xs" "xs ! i = v" "\<forall>j<i. xs ! j \<noteq> v"
      by blast
    have "\<forall>j<Suc i. (x # xs) ! j \<noteq> v"
      using False i(4) by (auto simp: nth_Cons split: nat.splits)
    with False i show ?thesis by simp
  qed
qed


lemma flt_Val_int [simp]: "flt (Val (of_int x)) (Val (of_int y)) \<longleftrightarrow> x < y"
  by (simp add: flt_def)

lemma feq_Val_int: "feq (Val (of_int x)) (Val (of_int y)) \<longleftrightarrow> x = y"
  by simp





lemma fgt_Val_int [simp]: "fgt (Val (of_int x)) (Val (of_int y)) \<longleftrightarrow> y < x"
  by (simp add: fgt_def)

lemma py_extremum_flt_ints:
  "xs \<noteq> [] \<Longrightarrow>
   py_extremum flt (map (\<lambda>x. Val (of_int x)) xs) = Inr (Val (of_int (Min (set xs))))"
proof -
  assume "xs \<noteq> []"
  then obtain a r where xs: "xs = a # r" by (cases xs) auto
  have "scan_best flt (Val (of_int a)) (map (\<lambda>x. Val (of_int x)) r)
        = Val (of_int (scan_best (\<lambda>a b. a < b) a r))"
    by (rule scan_best_map[where f = "\<lambda>x. Val (of_int x)"]) simp
  then show ?thesis by (simp add: xs py_extremum_def scan_best_Min)
qed

lemma py_extremum_fgt_ints:
  "xs \<noteq> [] \<Longrightarrow>
   py_extremum fgt (map (\<lambda>x. Val (of_int x)) xs) = Inr (Val (of_int (Max (set xs))))"
proof -
  assume "xs \<noteq> []"
  then obtain a r where xs: "xs = a # r" by (cases xs) auto
  have "scan_best fgt (Val (of_int a)) (map (\<lambda>x. Val (of_int x)) r)
        = Val (of_int (scan_best (\<lambda>a b. b < a) a r))"
    by (rule scan_best_map[where f = "\<lambda>x. Val (of_int x)"]) simp
  then show ?thesis by (simp add: xs py_extremum_def scan_best_Max)
qed

lemma py_index_feq_ints:
  "py_index feq (map (\<lambda>x. Val (of_int x)) xs) (Val (of_int v)) = py_index (=) xs v"
  by (rule py_index_map[where f = "\<lambda>x. Val (of_int x)"]) simp

lemma fdiv_total: "\<not> is_zero b \<Longrightarrow> \<exists>q. fdiv a b = Inr q"
  by (simp add: fdiv_def Let_def)

lemma convert_f_to_c_total: "\<exists>c. convert_f_to_c (PyFloat f) = Inr c"
  using convert_f_to_c_float[of f] by blast

lemma generate_summary_core:
  assumes ne: "ds \<noteq> []"
    and b: "\<forall>r\<in>set ds. \<bar>fst (snd r)\<bar> \<le> 2 ^ 53 \<and> \<bar>snd (snd r)\<bar> \<le> 2 ^ 53"
    and len: "int (length ds) \<le> 2 ^ 53"
  shows "\<exists>i j c_min c_max avg_min avg_max c_avg_min c_avg_max.
           i < length ds \<and> fst (snd (ds ! i)) = Min (set (map (\<lambda>r. fst (snd r)) ds))
         \<and> (\<forall>k<i. fst (snd (ds ! k)) \<noteq> Min (set (map (\<lambda>r. fst (snd r)) ds)))
         \<and> j < length ds \<and> snd (snd (ds ! j)) = Max (set (map (\<lambda>r. snd (snd r)) ds))
         \<and> (\<forall>k<j. snd (snd (ds ! k)) \<noteq> Max (set (map (\<lambda>r. snd (snd r)) ds)))
         \<and> convert_f_to_c (PyFloat (Val (of_int (Min (set (map (\<lambda>r. fst (snd r)) ds))))))
             = Inr c_min
         \<and> convert_f_to_c (PyFloat (Val (of_int (Max (set (map (\<lambda>r. snd (snd r)) ds))))))
             = Inr c_max
         \<and> fdiv (py_sum (map (\<lambda>r. Val (of_int (fst (snd r)))) ds))
                 (Val (of_int (int (length ds)))) = Inr avg_min
         \<and> fdiv (py_sum (map (\<lambda>r. Val (of_int (snd (snd r)))) ds))
                 (Val (of_int (int (length ds)))) = Inr avg_max
         \<and> convert_f_to_c (PyFloat avg_min) = Inr c_avg_min
         \<and> convert_f_to_c (PyFloat avg_max) = Inr c_avg_max
         \<and> generate_summary parse ds =
             ebind (convert_date parse (fst (ds ! i))) (\<lambda>min_day.
             ebind (convert_date parse (fst (ds ! j))) (\<lambda>max_day.
             Inr (summary_text (length ds) c_min min_day c_max max_day c_avg_min c_avg_max
                  @ [CHR 0x0A])))"
proof -
  let ?mins = "map (\<lambda>r. fst (snd r)) ds" and ?maxs = "map (\<lambda>r. snd (snd r)) ds"
  let ?f = "\<lambda>x::int. Val (of_int x)"
  let ?m = "Min (set ?mins)" and ?M = "Max (set ?maxs)"
  have mne: "?mins \<noteq> []" "?maxs \<noteq> []" using ne by simp_all
  have e1: "emap (\<lambda>day. py_float (fst (snd day))) ds = Inr (map ?f ?mins)"
    using b emap_exact[of ds "\<lambda>day. py_float (fst (snd day))" "\<lambda>day. ?f (fst (snd day))"]
    by (simp add: py_float_exact comp_def)
  have e2: "emap (\<lambda>day. py_float (snd (snd day))) ds = Inr (map ?f ?maxs)"
    using b emap_exact[of ds "\<lambda>day. py_float (snd (snd day))" "\<lambda>day. ?f (snd (snd day))"]
    by (simp add: py_float_exact comp_def)
  have x1: "py_extremum flt (map ?f ?mins) = Inr (?f ?m)"
    by (rule py_extremum_flt_ints[OF mne(1)])
  have x2: "py_extremum fgt (map ?f ?maxs) = Inr (?f ?M)"
    by (rule py_extremum_fgt_ints[OF mne(2)])
  have "?m \<in> set ?mins" using mne(1) by (intro Min_in) auto
  from py_index_first[OF this] obtain i where
    i: "py_index (=) ?mins ?m = Inr i" "i < length ?mins" "?mins ! i = ?m"
       "\<forall>k<i. ?mins ! k \<noteq> ?m"
    by blast
  have "?M \<in> set ?maxs" using mne(2) by (intro Max_in) auto
  from py_index_first[OF this] obtain j where
    j: "py_index (=) ?maxs ?M = Inr j" "j < length ?maxs" "?maxs ! j = ?M"
       "\<forall>k<j. ?maxs ! k \<noteq> ?M"
    by blast
  have i1: "py_index feq (map ?f ?mins) (?f ?m) = Inr i"
    using i(1) by (simp only: py_index_feq_ints)
  have j1: "py_index feq (map ?f ?maxs) (?f ?M) = Inr j"
    using j(1) by (simp only: py_index_feq_ints)
  have il: "i < length ds" and jl: "j < length ds" using i(2) j(2) by simp_all
  have iv: "fst (snd (ds ! i)) = ?m" using i(3) il by simp
  have jv: "snd (snd (ds ! j)) = ?M" using j(3) jl by simp
  have ifirst: "\<forall>k<i. fst (snd (ds ! k)) \<noteq> ?m" using i(4) il by auto
  have jfirst: "\<forall>k<j. snd (snd (ds ! k)) \<noteq> ?M" using j(4) jl by auto
  have n: "py_float (int (length ds)) = Inr (?f (int (length ds)))"
    using len by (intro py_float_exact) simp
  have nz: "\<not> is_zero (?f (int (length ds)))" using ne by (simp add: is_zero_def)
  from fdiv_total[OF nz] obtain avg_min where
    a1: "fdiv (py_sum (map ?f ?mins)) (?f (int (length ds))) = Inr avg_min" by blast
  from fdiv_total[OF nz] obtain avg_max where
    a2: "fdiv (py_sum (map ?f ?maxs)) (?f (int (length ds))) = Inr avg_max" by blast
  from convert_f_to_c_total obtain c_min where c1: "convert_f_to_c (PyFloat (?f ?m)) = Inr c_min"
    by blast
  from convert_f_to_c_total obtain c_max where c2: "convert_f_to_c (PyFloat (?f ?M)) = Inr c_max"
    by blast
  from convert_f_to_c_total obtain c_avg_min where
    c3: "convert_f_to_c (PyFloat avg_min) = Inr c_avg_min" by blast
  from convert_f_to_c_total obtain c_avg_max where
    c4: "convert_f_to_c (PyFloat avg_max) = Inr c_avg_max" by blast
  have g: "generate_summary parse ds =
             ebind (convert_date parse (fst (ds ! i))) (\<lambda>min_day.
             ebind (convert_date parse (fst (ds ! j))) (\<lambda>max_day.
             Inr (summary_text (length ds) c_min min_day c_max max_day c_avg_min c_avg_max
                  @ [CHR 0x0A])))"
    unfolding generate_summary_def Let_def e1 e2 ebind_Inr x1 x2 i1 j1 n a1 a2 c1 c2 c3 c4
    by (rule refl)
  have a1': "fdiv (py_sum (map (\<lambda>r. ?f (fst (snd r))) ds)) (?f (int (length ds))) = Inr avg_min"
    using a1 by (simp add: comp_def)
  have a2': "fdiv (py_sum (map (\<lambda>r. ?f (snd (snd r))) ds)) (?f (int (length ds))) = Inr avg_max"
    using a2 by (simp add: comp_def)
  show ?thesis
    using il iv ifirst jl jv jfirst c1 c2 a1' a2' c3 c4 g by blast
qed

lemma generate_summary_nil: "generate_summary parse [] = Inl ValueError"
  by (simp add: generate_summary_def py_extremum_def)

lemma convert_date_6_july:
  "convert_date iso_seconds ''2021-07-06T00:00:00'' = Inr ''Tuesday 06 July 2021''"
  by code_simp

lemma convert_date_7_july:
  "convert_date iso_seconds ''2021-07-07T00:00:00'' = Inr ''Wednesday 07 July 2021''"
  by code_simp

lemma convert_date_slashes: "convert_date iso_seconds ''06/07/2021'' = Inl ValueError"
  by code_simp

lemma convert_date_Inr: "parse (take 19 s) \<noteq> None \<Longrightarrow> \<exists>d. convert_date parse s = Inr d"
  by (auto simp: convert_date_def)



lemma fromisoformat_6_july:
  "fromisoformat (take 19 ''2021-07-06T00:00:00'')
   = Some \<lparr>dt_year = 2021, dt_month = 7, dt_day = 6, dt_hour = 0, dt_minute = 0,
            dt_second = 0\<rparr>"
  by code_simp

lemma fromisoformat_7_july:
  "fromisoformat (take 19 ''2021-07-07T00:00:00'')
   = Some \<lparr>dt_year = 2021, dt_month = 7, dt_day = 7, dt_hour = 0, dt_minute = 0,
            dt_second = 0\<rparr>"
  by code_simp

lemma fromisoformat_slashes: "fromisoformat (take 19 ''06/07/2021'') = None"
  by code_simp

text \<open>
  C7, as the program has it: on the empty dataset \<open>generate_summary\<close> raises the
  \<open>ValueError\<close> of \<open>min\<close> on an empty list, before any division.  On a non-empty dataset
  of at most \<open>2 ^ 53\<close> records with temperatures of magnitude at most \<open>2 ^ 53\<close>, let
  \<open>i\<close> be the first record with the least minimum and \<open>j\<close> the first record with the
  greatest maximum: when the dates of both parse, the result is the five-line report
  followed by a newline; when one of them does not parse, the result is the parse error,
  a \<open>ValueError\<close>.
\<close>

theorem generate_summary_failure:
  assumes "ds \<noteq> []"
    and "\<forall>r\<in>set ds. \<bar>fst (snd r)\<bar> \<le> 2 ^ 53 \<and> \<bar>snd (snd r)\<bar> \<le> 2 ^ 53"
    and "int (length ds) \<le> 2 ^ 53"
  shows "\<exists>i j. i < length ds \<and> fst (snd (ds ! i)) = Min (set (map (\<lambda>r. fst (snd r)) ds))
           \<and> (\<forall>k<i. fst (snd (ds ! k)) \<noteq> Min (set (map (\<lambda>r. fst (snd r)) ds)))
           \<and> j < length ds \<and> snd (snd (ds ! j)) = Max (set (map (\<lambda>r. snd (snd r)) ds))
           \<and> (\<forall>k<j. snd (snd (ds ! k)) \<noteq> Max (set (map (\<lambda>r. snd (snd r)) ds)))
           \<and> (parse (take 19 (fst (ds ! i))) \<noteq> None \<and> parse (take 19 (fst (ds ! j))) \<noteq> None
                \<longrightarrow> (\<exists>c_min min_day c_max max_day c_avg_min c_avg_max.
                       generate_summary parse ds
                       = Inr (summary_text (length ds) c_min min_day c_max max_day
                                c_avg_min c_avg_max @ [CHR 0x0A])))
           \<and> (parse (take 19 (fst (ds ! i))) = None \<or> parse (take 19 (fst (ds ! j))) = None
                \<longrightarrow> generate_summary parse ds = Inl ValueError)
           \<and> generate_summary parse [] = Inl ValueError"
proof -
  from generate_summary_core[OF assms, of parse]
  obtain i j c_min c_max c_avg_min c_avg_max where
    il: "i < length ds" and iv: "fst (snd (ds ! i)) = Min (set (map (\<lambda>r. fst (snd r)) ds))"
    and ifirst: "\<forall>k<i. fst (snd (ds ! k)) \<noteq> Min (set (map (\<lambda>r. fst (snd r)) ds))"
    and jl: "j < length ds" and jv: "snd (snd (ds ! j)) = Max (set (map (\<lambda>r. snd (snd r)) ds))"
    and jfirst: "\<forall>k<j. snd (snd (ds ! k)) \<noteq> Max (set (map (\<lambda>r. snd (snd r)) ds))"
    and g: "generate_summary parse ds =
             ebind (convert_date parse (fst (ds ! i))) (\<lambda>min_day.
             ebind (convert_date parse (fst (ds ! j))) (\<lambda>max_day.
             Inr (summary_text (length ds) c_min min_day c_max max_day c_avg_min c_avg_max
                  @ [CHR 0x0A])))"
    by blast
  have ok: "parse (take 19 (fst (ds ! i))) \<noteq> None \<and> parse (take 19 (fst (ds ! j))) \<noteq> None
            \<longrightarrow> (\<exists>c_min min_day c_max max_day c_avg_min c_avg_max.
                  generate_summary parse ds
                  = Inr (summary_text (length ds) c_min min_day c_max max_day
                           c_avg_min c_avg_max @ [CHR 0x0A]))"
  proof (intro impI, elim conjE)
    assume a: "parse (take 19 (fst (ds ! i))) \<noteq> None"
      and b: "parse (take 19 (fst (ds ! j))) \<noteq> None"
    from a convert_date_Inr[of parse "fst (ds ! i)"] obtain d1 where
      d1: "convert_date parse (fst (ds ! i)) = Inr d1" by blast
    from b convert_date_Inr[of parse "fst (ds ! j)"] obtain d2 where
      d2: "convert_date parse (fst (ds ! j)) = Inr d2" by blast
    have "generate_summary parse ds
          = Inr (summary_text (length ds) c_min d1 c_max d2 c_avg_min c_avg_max @ [CHR 0x0A])"
      unfolding g d1 d2 by simp
    then show "\<exists>c_min min_day c_max max_day c_avg_min c_avg_max.
                 generate_summary parse ds
                 = Inr (summary_text (length ds) c_min min_day c_max max_day
                          c_avg_min c_avg_max @ [CHR 0x0A])"
      by (intro exI)
  qed
  have bad: "parse (take 19 (fst (ds ! i))) = None \<or> parse (take 19 (fst (ds ! j))) = None
             \<longrightarrow> generate_summary parse ds = Inl ValueError"
  proof (intro impI)
    assume disj: "parse (take 19 (fst (ds ! i))) = None \<or> parse (take 19 (fst (ds ! j))) = None"
    show "generate_summary parse ds = Inl ValueError"
    proof (cases "parse (take 19 (fst (ds ! i))) = None")
      case True
      then have d1: "convert_date parse (fst (ds ! i)) = Inl ValueError"
        by (simp add: convert_date_def)
      show ?thesis unfolding g d1 by simp
    next
      case False
      with disj have n: "parse (take 19 (fst (ds ! j))) = None" by simp
      from False convert_date_Inr[of parse "fst (ds ! i)"] obtain d1 where
        d1: "convert_date parse (fst (ds ! i)) = Inr d1" by blast
      from n have d2: "convert_date parse (fst (ds ! j)) = Inl ValueError"
        by (simp add: convert_date_def)
      show ?thesis unfolding g d1 d2 by simp
    qed
  qed
  have nil: "generate_summary parse [] = Inl ValueError"
    by (rule generate_summary_nil)
  show ?thesis
    by (rule exI[of _ i], rule exI[of _ j], intro conjI)
       (rule il iv ifirst jl jv jfirst ok bad nil)+
qed

theorem generate_summary_failure_witness:
  "[(''2021-07-06T00:00:00'', 50, 59), (''2021-07-07T00:00:00'', 45, 60)] \<noteq> []
   \<and> (\<exists>c_min min_day c_max max_day c_avg_min c_avg_max.
         generate_summary fromisoformat
           [(''2021-07-06T00:00:00'', 50, 59), (''2021-07-07T00:00:00'', 45, 60)]
         = Inr (summary_text 2 c_min min_day c_max max_day c_avg_min c_avg_max @ [CHR 0x0A]))
   \<and> [(''06/07/2021'', 50::int, 59::int)] \<noteq> []
   \<and> generate_summary fromisoformat [(''06/07/2021'', 50, 59)] = Inl ValueError
   \<and> generate_summary fromisoformat [] = Inl ValueError"
proof -
  let ?ds = "[(''2021-07-06T00:00:00'', 50, 59), (''2021-07-07T00:00:00'', 45, 60)]
             :: weather_record list"
  let ?bad = "[(''06/07/2021'', 50, 59)] :: weather_record list"
  have h1: "?ds \<noteq> []" by simp
  have h2: "\<forall>r\<in>set ?ds. \<bar>fst (snd r)\<bar> \<le> 2 ^ 53 \<and> \<bar>snd (snd r)\<bar> \<le> 2 ^ 53" by simp
  have h3: "int (length ?ds) \<le> 2 ^ 53" by simp
  have p: "fromisoformat (take 19 (fst (?ds ! k))) \<noteq> None" if "k < length ?ds" for k
  proof -
    from that have "k = 0 \<or> k = 1" by auto
    then show ?thesis using fromisoformat_6_july fromisoformat_7_july by auto
  qed
  from generate_summary_failure[OF h1 h2 h3, of fromisoformat]
  obtain i j where il: "i < length ?ds" and jl: "j < length ?ds"
    and ok: "fromisoformat (take 19 (fst (?ds ! i))) \<noteq> None
             \<and> fromisoformat (take 19 (fst (?ds ! j))) \<noteq> None
             \<longrightarrow> (\<exists>c_min min_day c_max max_day c_avg_min c_avg_max.
                   generate_summary fromisoformat ?ds
                   = Inr (summary_text (length ?ds) c_min min_day c_max max_day
                            c_avg_min c_avg_max @ [CHR 0x0A]))"
    and nil: "generate_summary fromisoformat [] = Inl ValueError"
    by blast
  from ok p[OF il] p[OF jl]
  have good: "\<exists>c_min min_day c_max max_day c_avg_min c_avg_max.
                generate_summary fromisoformat ?ds
                = Inr (summary_text 2 c_min min_day c_max max_day c_avg_min c_avg_max
                       @ [CHR 0x0A])"
    by (simp add: numeral_2_eq_2)
  have b1: "?bad \<noteq> []" by simp
  have b2: "\<forall>r\<in>set ?bad. \<bar>fst (snd r)\<bar> \<le> 2 ^ 53 \<and> \<bar>snd (snd r)\<bar> \<le> 2 ^ 53" by simp
  have b3: "int (length ?bad) \<le> 2 ^ 53" by simp
  from generate_summary_failure[OF b1 b2 b3, of fromisoformat]
  obtain i' j' where i': "i' < length ?bad"
    and bad: "fromisoformat (take 19 (fst (?bad ! i'))) = None
              \<or> fromisoformat (take 19 (fst (?bad ! j'))) = None
              \<longrightarrow> generate_summary fromisoformat ?bad = Inl ValueError"
    by blast
  from i' have "i' = 0" by simp
  with bad fromisoformat_slashes have failing: "generate_summary fromisoformat ?bad = Inl ValueError"
    by simp
  show ?thesis using h1 good b1 failing nil by blast
qed

text \<open>
  The empty dataset fails with \<open>ValueError\<close>, not with a division by zero, and a
  non-empty dataset whose date is not in ISO form fails as well.
\<close>

theorem generate_summary_failure_counterexample:
  "generate_summary iso_seconds [] = Inl ValueError
   \<and> generate_summary iso_seconds [] \<noteq> Inl ZeroDivisionError
   \<and> generate_summary iso_seconds [(''06/07/2021'', 50, 59)] = Inl ValueError"
proof -
  let ?ds = "[(''06/07/2021'', 50, 59)] :: weather_record list"
  have h1: "?ds \<noteq> []" by simp
  have h2: "\<forall>r\<in>set ?ds. \<bar>fst (snd r)\<bar> \<le> 2 ^ 53 \<and> \<bar>snd (snd r)\<bar> \<le> 2 ^ 53" by simp
  have h3: "int (length ?ds) \<le> 2 ^ 53" by simp
  from generate_summary_core[OF h1 h2 h3, of iso_seconds]
  obtain i c_min c_max c_avg_min c_avg_max j where
    il: "i < length ?ds"
    and g: "generate_summary iso_seconds ?ds =
             ebind (convert_date iso_seconds (fst (?ds ! i))) (\<lambda>min_day.
             ebind (convert_date iso_seconds (fst (?ds ! j))) (\<lambda>max_day.
             Inr (summary_text (length ?ds) c_min min_day c_max max_day c_avg_min c_avg_max
                  @ [CHR 0x0A])))"
    by blast
  from il have i0: "i = 0" by simp
  have "generate_summary iso_seconds ?ds = Inl ValueError"
    unfolding g i0 by (simp add: convert_date_slashes)
  then show ?thesis by (simp add: generate_summary_nil)
qed

lemma py_join_append:
  "xs \<noteq> [] \<Longrightarrow> ys \<noteq> [] \<Longrightarrow> py_join sep (xs @ ys) = py_join sep xs @ sep @ py_join sep ys"
proof (induction sep xs rule: py_join.induct)
  case (1 sep)
  then show ?case by simp
next
  case (2 sep x)
  then show ?case by (cases ys) simp_all
next
  case (3 sep x y r)
  then show ?case by simp
qed

lemma is_space_facts [simp]:
  "is_space (CHR 0x0A)" "\<not> is_space CHR ''-''" "\<not> is_space CHR ''C''"
  by (simp_all add: is_space_def)

lemma py_strip_newline:
  "\<not> is_space a \<Longrightarrow> \<not> is_space b \<Longrightarrow> py_strip (a # Y @ [b, CHR 0x0A]) = a # Y @ [b]"
  by (simp add: py_strip_def)

lemma concat_blocks_shape:
  "ds \<noteq> [] \<Longrightarrow> (\<And>r. \<exists>Z. B r = a # Z @ w) \<Longrightarrow> \<exists>Y. concat (map B ds) = a # Y @ w"
proof (induction ds)
  case Nil
  then show ?case by simp
next
  case (Cons r rs)
  from Cons.prems(2)[of r] obtain Z where Z: "B r = a # Z @ w" by blast
  show ?case
  proof (cases "rs = []")
    case True
    then show ?thesis using Z by simp
  next
    case False
    from Cons.IH[OF False Cons.prems(2)] obtain Y where "concat (map B rs) = a # Y @ w" by blast
    then have "concat (map B (r # rs)) = a # (Z @ w @ a # Y) @ w" using Z by simp
    then show ?thesis by blast
  qed
qed

lemma block_text_shape:
  "\<exists>Z. block_text d c1 c2 = CHR ''-'' # Z @ [CHR ''C'', CHR 0x0A, CHR 0x0A]"
proof -
  have "block_text d c1 c2 = CHR ''-'' # (''--- '' @ d @ '' ----'' @ [CHR 0x0A]
     @ ''  Minimum Temperature: '' @ format_temperature (PyFloat c1) @ [CHR 0x0A]
     @ ''  Maximum Temperature: '' @ float_repr c2 @ [CHR 0xB0]) @ [CHR ''C'', CHR 0x0A, CHR 0x0A]"
    by (simp add: block_text_def format_temperature_def DEGREE_SYMBOL_def)
  then show ?thesis by blast
qed

lemma day_lines_ok:
  assumes "convert_date parse (fst r) = Inr d"
    and "\<bar>fst (snd r)\<bar> \<le> 2 ^ 53" and "\<bar>snd (snd r)\<bar> \<le> 2 ^ 53"
    and "convert_f_to_c (PyFloat (Val (of_int (fst (snd r))))) = Inr c1"
    and "convert_f_to_c (PyFloat (Val (of_int (snd (snd r))))) = Inr c2"
  shows "day_lines parse r =
           Inr [''---- '' @ d @ '' ----'',
                ''  Minimum Temperature: '' @ format_temperature (PyFloat c1),
                ''  Maximum Temperature: '' @ format_temperature (PyFloat c2) @ [CHR 0x0A]]"
  unfolding day_lines_def assms(1) py_float_exact[OF assms(2)] py_float_exact[OF assms(3)]
    ebind_Inr assms(4) assms(5)
  by (rule refl)

lemma generate_daily_summary_core:
  assumes ne: "ds \<noteq> []"
    and b: "\<forall>r\<in>set ds. \<bar>fst (snd r)\<bar> \<le> 2 ^ 53 \<and> \<bar>snd (snd r)\<bar> \<le> 2 ^ 53"
    and p: "\<forall>r\<in>set ds. parse (take 19 (fst r)) \<noteq> None"
  shows "\<exists>blocks. length blocks = length ds
           \<and> (\<forall>n<length ds. \<exists>d c_min c_max.
                  convert_date parse (fst (ds ! n)) = Inr d
                \<and> convert_f_to_c (PyFloat (Val (of_int (fst (snd (ds ! n)))))) = Inr c_min
                \<and> convert_f_to_c (PyFloat (Val (of_int (snd (snd (ds ! n)))))) = Inr c_max
                \<and> blocks ! n = block_text d c_min c_max)
           \<and> generate_daily_summary parse ds = Inr (concat blocks)"
proof -
  define D where "D r = projr (convert_date parse (fst r))" for r :: weather_record
  define C1 where "C1 r = projr (convert_f_to_c (PyFloat (Val (of_int (fst (snd r))))))"
    for r :: weather_record
  define C2 where "C2 r = projr (convert_f_to_c (PyFloat (Val (of_int (snd (snd r))))))"
    for r :: weather_record
  define L where "L r = [''---- '' @ D r @ '' ----'',
         ''  Minimum Temperature: '' @ format_temperature (PyFloat (C1 r)),
         ''  Maximum Temperature: '' @ format_temperature (PyFloat (C2 r)) @ [CHR 0x0A]]"
    for r :: weather_record
  define B where "B r = block_text (D r) (C1 r) (C2 r)" for r :: weather_record
  have c1: "convert_f_to_c (PyFloat (Val (of_int (fst (snd r))))) = Inr (C1 r)" for r
    using convert_f_to_c_total[of "Val (of_int (fst (snd r)))"] by (auto simp: C1_def)
  have c2: "convert_f_to_c (PyFloat (Val (of_int (snd (snd r))))) = Inr (C2 r)" for r
    using convert_f_to_c_total[of "Val (of_int (snd (snd r)))"] by (auto simp: C2_def)
  have d: "convert_date parse (fst r) = Inr (D r)" if "r \<in> set ds" for r
    using convert_date_Inr[of parse "fst r"] p that by (auto simp: D_def)
  have dl: "day_lines parse r = Inr (L r)" if "r \<in> set ds" for r
    unfolding L_def using that b by (intro day_lines_ok d c1 c2) auto
  have em: "emap (day_lines parse) ds = Inr (map L ds)"
    by (rule emap_exact) (rule dl)
  have one: "py_join [CHR 0x0A] (L r) @ [CHR 0x0A] = B r" for r
    by (simp add: L_def B_def block_text_def)
  have Lne: "L r \<noteq> []" for r by (simp add: L_def)
  have join: "xs \<noteq> [] \<Longrightarrow> py_join [CHR 0x0A] (concat (map L xs)) @ [CHR 0x0A] = concat (map B xs)"
    for xs
  proof (induction xs)
    case Nil
    then show ?case by simp
  next
    case (Cons r rs)
    show ?case
    proof (cases "rs = []")
      case True
      then show ?thesis using one[of r] by simp
    next
      case False
      then have "concat (map L rs) \<noteq> []" using Lne by (cases rs) auto
      then have "py_join [CHR 0x0A] (L r @ concat (map L rs))
                 = py_join [CHR 0x0A] (L r) @ [CHR 0x0A] @ py_join [CHR 0x0A] (concat (map L rs))"
        using Lne[of r] by (intro py_join_append)
      then show ?thesis using Cons.IH[OF False] one[of r] by simp
    qed
  qed
  have sh: "\<exists>Z. B r = CHR ''-'' # Z @ [CHR ''C'', CHR 0x0A, CHR 0x0A]" for r
    unfolding B_def by (rule block_text_shape)
  have "\<exists>Y. concat (map B ds) = CHR ''-'' # Y @ [CHR ''C'', CHR 0x0A, CHR 0x0A]"
    by (rule concat_blocks_shape[of ds B "CHR ''-''" "[CHR ''C'', CHR 0x0A, CHR 0x0A]", OF ne sh])
  then obtain Y where
    Y: "concat (map B ds) = CHR ''-'' # Y @ [CHR ''C'', CHR 0x0A, CHR 0x0A]" by blast
  have "py_join [CHR 0x0A] (concat (map L ds)) @ [CHR 0x0A]
        = (CHR ''-'' # Y @ [CHR ''C'', CHR 0x0A]) @ [CHR 0x0A]"
    using join[OF ne] Y by simp
  then have J: "py_join [CHR 0x0A] (concat (map L ds)) = CHR ''-'' # Y @ [CHR ''C'', CHR 0x0A]"
    by (simp only: append_same_eq)
  have g: "generate_daily_summary parse ds = Inr (concat (map B ds))"
    unfolding generate_daily_summary_def em ebind_Inr J Y
    by (simp add: py_strip_newline)
  have each: "\<forall>n<length ds. \<exists>d c_min c_max.
                  convert_date parse (fst (ds ! n)) = Inr d
                \<and> convert_f_to_c (PyFloat (Val (of_int (fst (snd (ds ! n)))))) = Inr c_min
                \<and> convert_f_to_c (PyFloat (Val (of_int (snd (snd (ds ! n)))))) = Inr c_max
                \<and> map B ds ! n = block_text d c_min c_max"
    using d c1 c2 by (auto simp: B_def)
  show ?thesis
    using each g by (intro exI[of _ "map B ds"]) simp
qed

lemma convert_f_to_c_50: "convert_f_to_c (PyFloat (Val 50)) = Inr (Val 10)"
  by code_simp

lemma convert_f_to_c_59: "convert_f_to_c (PyFloat (Val 59)) = Inr (Val 15)"
  by code_simp

lemma float_repr_10: "float_repr (Val 10) = ''10.0''"
  by code_simp

lemma float_repr_15: "float_repr (Val 15) = ''15.0''"
  by code_simp

lemma one_record_blocks:
  assumes "\<exists>blocks. length blocks = length [(''2021-07-06T00:00:00'', 50::int, 59::int)]
           \<and> (\<forall>n<length [(''2021-07-06T00:00:00'', 50::int, 59::int)]. \<exists>d c_min c_max.
                  convert_date iso_seconds (fst ([(''2021-07-06T00:00:00'', 50, 59)] ! n)) = Inr d
                \<and> convert_f_to_c (PyFloat (Val (of_int
                      (fst (snd ([(''2021-07-06T00:00:00'', 50::int, 59::int)] ! n)))))) = Inr c_min
                \<and> convert_f_to_c (PyFloat (Val (of_int
                      (snd (snd ([(''2021-07-06T00:00:00'', 50::int, 59::int)] ! n)))))) = Inr c_max
                \<and> blocks ! n = block_text d c_min c_max)
           \<and> generate_daily_summary iso_seconds [(''2021-07-06T00:00:00'', 50, 59)]
               = Inr (concat blocks)"
  shows "generate_daily_summary iso_seconds [(''2021-07-06T00:00:00'', 50, 59)]
         = Inr (block_text ''Tuesday 06 July 2021'' (Val 10) (Val 15))"
proof -
  from assms obtain blocks where
    len: "length blocks = 1"
    and each: "\<exists>d c_min c_max.
                  convert_date iso_seconds ''2021-07-06T00:00:00'' = Inr d
                \<and> convert_f_to_c (PyFloat (Val 50)) = Inr c_min
                \<and> convert_f_to_c (PyFloat (Val 59)) = Inr c_max
                \<and> blocks ! 0 = block_text d c_min c_max"
    and g: "generate_daily_summary iso_seconds [(''2021-07-06T00:00:00'', 50, 59)]
            = Inr (concat blocks)"
    by auto
  from each have b0: "blocks ! 0 = block_text ''Tuesday 06 July 2021'' (Val 10) (Val 15)"
    by (auto simp: convert_date_6_july convert_f_to_c_50 convert_f_to_c_59)
  from len obtain x where "blocks = [x]" by (cases blocks) auto
  with b0 have "concat blocks = block_text ''Tuesday 06 July 2021'' (Val 10) (Val 15)" by simp
  with g show ?thesis by simp
qed

lemma block_text_6_july:
  "block_text ''Tuesday 06 July 2021'' (Val 10) (Val 15)
   = ''---- Tuesday 06 July 2021 ----'' @ [CHR 0x0A]
     @ ''  Minimum Temperature: 10.0'' @ [CHR 0xB0] @ ''C'' @ [CHR 0x0A]
     @ ''  Maximum Temperature: 15.0'' @ [CHR 0xB0] @ ''C'' @ [CHR 0x0A, CHR 0x0A]"
proof -
  have f10: "format_temperature (PyFloat (Val 10)) = ''10.0'' @ [CHR 0xB0, CHR ''C'']"
    unfolding format_temperature_def DEGREE_SYMBOL_def str_number.simps float_repr_10
    by (rule refl)
  have f15: "format_temperature (PyFloat (Val 15)) = ''15.0'' @ [CHR 0xB0, CHR ''C'']"
    unfolding format_temperature_def DEGREE_SYMBOL_def str_number.simps float_repr_15
    by (rule refl)
  show ?thesis unfolding block_text_def f10 f15 by simp
qed

lemma split_nl_6_july:
  "split_nl (''---- Tuesday 06 July 2021 ----'' @ [CHR 0x0A]
     @ ''  Minimum Temperature: 10.0'' @ [CHR 0xB0] @ ''C'' @ [CHR 0x0A]
     @ ''  Maximum Temperature: 15.0'' @ [CHR 0xB0] @ ''C'' @ [CHR 0x0A, CHR 0x0A])
   = [''---- Tuesday 06 July 2021 ----'',
      ''  Minimum Temperature: 10.0'' @ [CHR 0xB0] @ ''C'',
      ''  Maximum Temperature: 15.0'' @ [CHR 0xB0] @ ''C'', [], []]"
  by simp

text \<open>
  C9, as the program has it: for a non-empty dataset (dates that parse, temperatures that
  \<open>float\<close> holds exactly) the daily summary is the concatenation, in dataset order, of one
  block per record; a block is the header line, the minimum line, the maximum line and
  one empty line (\<open>block_text\<close>).  So a one-record dataset gives the header and exactly
  two content lines, then one blank line; and every result ends in the last temperature
  line followed by exactly two newline characters.
\<close>

theorem generate_daily_summary_blocks:
  assumes "ds \<noteq> []"
    and "\<forall>r\<in>set ds. \<bar>fst (snd r)\<bar> \<le> 2 ^ 53 \<and> \<bar>snd (snd r)\<bar> \<le> 2 ^ 53"
    and "\<forall>r\<in>set ds. parse (take 19 (fst r)) \<noteq> None"
  shows "\<exists>blocks. length blocks = length ds
           \<and> (\<forall>n<length ds. \<exists>d c_min c_max.
                  convert_date parse (fst (ds ! n)) = Inr d
                \<and> convert_f_to_c (PyFloat (Val (of_int (fst (snd (ds ! n)))))) = Inr c_min
                \<and> convert_f_to_c (PyFloat (Val (of_int (snd (snd (ds ! n)))))) = Inr c_max
                \<and> blocks ! n = block_text d c_min c_max)
           \<and> generate_daily_summary parse ds = Inr (concat blocks)"
  by (rule generate_daily_summary_core[OF assms])

theorem generate_daily_summary_blocks_witness:
  "[(''2021-07-06T00:00:00'', 50::int, 59::int)] \<noteq> []
   \<and> generate_daily_summary iso_seconds [(''2021-07-06T00:00:00'', 50, 59)]
     = Inr (block_text ''Tuesday 06 July 2021'' (Val 10) (Val 15))"
proof -
  let ?ds = "[(''2021-07-06T00:00:00'', 50, 59)] :: weather_record list"
  have h1: "?ds \<noteq> []" by simp
  have h2: "\<forall>r\<in>set ?ds. \<bar>fst (snd r)\<bar> \<le> 2 ^ 53 \<and> \<bar>snd (snd r)\<bar> \<le> 2 ^ 53" by simp
  have "iso_seconds (take 19 ''2021-07-06T00:00:00'') \<noteq> None"
    using convert_date_6_july by (auto simp: convert_date_def split: option.splits)
  then have h3: "\<forall>r\<in>set ?ds. iso_seconds (take 19 (fst r)) \<noteq> None" by simp
  show ?thesis
    using one_record_blocks[OF generate_daily_summary_blocks[OF h1 h2 h3]] by simp
qed

text \<open>
  A one-record dataset: the report has three lines that are not blank (the header and
  two content lines), then one blank line.
\<close>

theorem generate_daily_summary_lines_counterexample:
  "generate_daily_summary iso_seconds [(''2021-07-06T00:00:00'', 50, 59)]
   = Inr (''---- Tuesday 06 July 2021 ----'' @ [CHR 0x0A]
          @ ''  Minimum Temperature: 10.0'' @ [CHR 0xB0] @ ''C'' @ [CHR 0x0A]
          @ ''  Maximum Temperature: 15.0'' @ [CHR 0xB0] @ ''C'' @ [CHR 0x0A, CHR 0x0A])
   \<and> length (filter (\<lambda>l. l \<noteq> [])
        (split_nl (''---- Tuesday 06 July 2021 ----'' @ [CHR 0x0A]
          @ ''  Minimum Temperature: 10.0'' @ [CHR 0xB0] @ ''C'' @ [CHR 0x0A]
          @ ''  Maximum Temperature: 15.0'' @ [CHR 0xB0] @ ''C'' @ [CHR 0x0A, CHR 0x0A]))) = 3"
proof -
  let ?ds = "[(''2021-07-06T00:00:00'', 50, 59)] :: weather_record list"
  have h1: "?ds \<noteq> []" by simp
  have h2: "\<forall>r\<in>set ?ds. \<bar>fst (snd r)\<bar> \<le> 2 ^ 53 \<and> \<bar>snd (snd r)\<bar> \<le> 2 ^ 53" by simp
  have "iso_seconds (take 19 ''2021-07-06T00:00:00'') \<noteq> None"
    using convert_date_6_july by (auto simp: convert_date_def split: option.splits)
  then have h3: "\<forall>r\<in>set ?ds. iso_seconds (take 19 (fst r)) \<noteq> None" by simp
  have g: "generate_daily_summary iso_seconds ?ds
           = Inr (block_text ''Tuesday 06 July 2021'' (Val 10) (Val 15))"
    by (rule one_record_blocks[OF generate_daily_summary_core[OF h1 h2 h3]])
  show ?thesis
    unfolding g block_text_6_july split_nl_6_july by simp
qed

lemma convert_f_to_c_45:
  "convert_f_to_c (PyFloat (Val 45)) = Inr (Val (8106479329266893 / 1125899906842624))"
  by code_simp

lemma convert_f_to_c_60:
  "convert_f_to_c (PyFloat (Val 60)) = Inr (Val (8782019273372467 / 562949953421312))"
  by code_simp

lemma avg_min_two_days: "fdiv (py_sum [Val 50, Val 45]) (Val 2) = Inr (Val (95 / 2))"
  by code_simp

lemma avg_max_two_days: "fdiv (py_sum [Val 59, Val 60]) (Val 2) = Inr (Val (119 / 2))"
  by code_simp

lemma convert_f_to_c_avg_min:
  "convert_f_to_c (PyFloat (Val (95 / 2))) = Inr (Val (4841369599423283 / 562949953421312))"
  by code_simp

lemma convert_f_to_c_avg_max:
  "convert_f_to_c (PyFloat (Val (119 / 2))) = Inr (Val (4306567143673037 / 281474976710656))"
  by code_simp

lemma float_repr_7_2: "float_repr (Val (8106479329266893 / 1125899906842624)) = ''7.2''"
  by code_simp

lemma float_repr_15_6: "float_repr (Val (8782019273372467 / 562949953421312)) = ''15.6''"
  by code_simp

lemma format_1f_8_6: "format_1f (Val (4841369599423283 / 562949953421312)) = ''8.6''"
  by code_simp

lemma format_1f_15_3: "format_1f (Val (4306567143673037 / 281474976710656)) = ''15.3''"
  by code_simp

lemma str_int_2: "str_int 2 = ''2''"
  by code_simp

lemma strftime_7_july:
  "strftime \<lparr>dt_year = 2021, dt_month = 7, dt_day = 7, dt_hour = 0, dt_minute = 0,
             dt_second = 0\<rparr> = ''Wednesday 07 July 2021''"
  by code_simp

lemma iso_seconds_7_july:
  "iso_seconds ''2021-07-07T00:00:00''
   = Some \<lparr>dt_year = 2021, dt_month = 7, dt_day = 7, dt_hour = 0, dt_minute = 0,
            dt_second = 0\<rparr>"
  by code_simp

lemma summary_text_two_days:
  "summary_text 2 (Val (8106479329266893 / 1125899906842624)) ''Wednesday 07 July 2021''
     (Val (8782019273372467 / 562949953421312)) ''Wednesday 07 July 2021''
     (Val (4841369599423283 / 562949953421312)) (Val (4306567143673037 / 281474976710656))
   @ [CHR 0x0A]
   = ''2 Day Overview'' @ [CHR 0x0A]
     @ ''  The lowest temperature will be 7.2'' @ [CHR 0xB0]
     @ ''C, and will occur on Wednesday 07 July 2021.'' @ [CHR 0x0A]
     @ ''  The highest temperature will be 15.6'' @ [CHR 0xB0]
     @ ''C, and will occur on Wednesday 07 July 2021.'' @ [CHR 0x0A]
     @ ''  The average low this week is 8.6'' @ [CHR 0xB0] @ ''C.'' @ [CHR 0x0A]
     @ ''  The average high this week is 15.3'' @ [CHR 0xB0] @ ''C.'' @ [CHR 0x0A]"
proof -
  have a: "format_temperature (PyFloat (Val (8106479329266893 / 1125899906842624)))
           = ''7.2'' @ [CHR 0xB0, CHR ''C'']"
    unfolding format_temperature_def DEGREE_SYMBOL_def str_number.simps float_repr_7_2
    by (rule refl)
  have b: "format_temperature (PyFloat (Val (8782019273372467 / 562949953421312)))
           = ''15.6'' @ [CHR 0xB0, CHR ''C'']"
    unfolding format_temperature_def DEGREE_SYMBOL_def str_number.simps float_repr_15_6
    by (rule refl)
  have two: "str_int (int 2) = ''2''" using str_int_2 by simp
  show ?thesis
    unfolding summary_text_def a b two format_1f_8_6 format_1f_15_3 DEGREE_SYMBOL_def
    by simp
qed

lemma summary_two_days:
  assumes "convert_date parse ''2021-07-07T00:00:00'' = Inr ''Wednesday 07 July 2021''"
  shows "generate_summary parse
           [(''2021-07-06T00:00:00'', 50, 59), (''2021-07-07T00:00:00'', 45, 60)]
         = Inr (''2 Day Overview'' @ [CHR 0x0A]
            @ ''  The lowest temperature will be 7.2'' @ [CHR 0xB0]
            @ ''C, and will occur on Wednesday 07 July 2021.'' @ [CHR 0x0A]
            @ ''  The highest temperature will be 15.6'' @ [CHR 0xB0]
            @ ''C, and will occur on Wednesday 07 July 2021.'' @ [CHR 0x0A]
            @ ''  The average low this week is 8.6'' @ [CHR 0xB0] @ ''C.'' @ [CHR 0x0A]
            @ ''  The average high this week is 15.3'' @ [CHR 0xB0] @ ''C.'' @ [CHR 0x0A])"
proof -
  let ?ds = "[(''2021-07-06T00:00:00'', 50, 59), (''2021-07-07T00:00:00'', 45, 60)]
             :: weather_record list"
  have h1: "?ds \<noteq> []" by simp
  have h2: "\<forall>r\<in>set ?ds. \<bar>fst (snd r)\<bar> \<le> 2 ^ 53 \<and> \<bar>snd (snd r)\<bar> \<le> 2 ^ 53" by simp
  have h3: "int (length ?ds) \<le> 2 ^ 53" by simp
  have mn: "Min (set (map (\<lambda>r. fst (snd r)) ?ds)) = 45"
    and mx: "Max (set (map (\<lambda>r. snd (snd r)) ?ds)) = 60" by simp_all
  from generate_summary_core[OF h1 h2 h3, of parse]
  obtain i j c_min c_max avg_min avg_max c_avg_min c_avg_max where
    il: "i < length ?ds" and iv: "fst (snd (?ds ! i)) = Min (set (map (\<lambda>r. fst (snd r)) ?ds))"
    and jl: "j < length ?ds" and jv: "snd (snd (?ds ! j)) = Max (set (map (\<lambda>r. snd (snd r)) ?ds))"
    and c1: "convert_f_to_c (PyFloat (Val (of_int (Min (set (map (\<lambda>r. fst (snd r)) ?ds))))))
             = Inr c_min"
    and c2: "convert_f_to_c (PyFloat (Val (of_int (Max (set (map (\<lambda>r. snd (snd r)) ?ds))))))
             = Inr c_max"
    and a1: "fdiv (py_sum (map (\<lambda>r. Val (of_int (fst (snd r)))) ?ds))
                 (Val (of_int (int (length ?ds)))) = Inr avg_min"
    and a2: "fdiv (py_sum (map (\<lambda>r. Val (of_int (snd (snd r)))) ?ds))
                 (Val (of_int (int (length ?ds)))) = Inr avg_max"
    and c3: "convert_f_to_c (PyFloat avg_min) = Inr c_avg_min"
    and c4: "convert_f_to_c (PyFloat avg_max) = Inr c_avg_max"
    and g: "generate_summary parse ?ds =
             ebind (convert_date parse (fst (?ds ! i))) (\<lambda>min_day.
             ebind (convert_date parse (fst (?ds ! j))) (\<lambda>max_day.
             Inr (summary_text (length ?ds) c_min min_day c_max max_day c_avg_min c_avg_max
                  @ [CHR 0x0A])))"
    by blast
  from il have "i = 0 \<or> i = 1" by auto
  with iv have i1: "i = 1" unfolding mn by auto
  from jl have "j = 0 \<or> j = 1" by auto
  with jv have j1: "j = 1" unfolding mx by auto
  from c1 have cmin: "c_min = Val (8106479329266893 / 1125899906842624)"
    unfolding mn using convert_f_to_c_45 by simp
  from c2 have cmax: "c_max = Val (8782019273372467 / 562949953421312)"
    unfolding mx using convert_f_to_c_60 by simp
  from a1 have am: "avg_min = Val (95 / 2)" using avg_min_two_days by simp
  from a2 have ax: "avg_max = Val (119 / 2)" using avg_max_two_days by simp
  from c3 have cam: "c_avg_min = Val (4841369599423283 / 562949953421312)"
    unfolding am using convert_f_to_c_avg_min by simp
  from c4 have cax: "c_avg_max = Val (4306567143673037 / 281474976710656)"
    unfolding ax using convert_f_to_c_avg_max by simp
  have d: "convert_date parse (fst (?ds ! 1)) = Inr ''Wednesday 07 July 2021''"
    using assms by simp
  have len: "length ?ds = 2" by simp
  show ?thesis
    unfolding g i1 j1 d ebind_Inr cmin cmax cam cax len summary_text_two_days
    by (rule refl)
qed

text \<open>
  C3, as the program has it: for the dataset
  \<open>[("2021-07-06T00:00:00", 50, 59), ("2021-07-07T00:00:00", 45, 60)]\<close> the least minimum
  is 45 (the second record), so the report gives the lowest temperature as 7.2 on
  Wednesday 07 July 2021, the highest as 15.6 on Wednesday 07 July 2021, and the averages,
  taken over the Fahrenheit values (47.5 and 59.5) and then converted, as 8.6 and 15.3.
\<close>

theorem generate_summary_two_days:
  assumes "parse ''2021-07-07T00:00:00''
           = Some \<lparr>dt_year = 2021, dt_month = 7, dt_day = 7, dt_hour = 0, dt_minute = 0,
                    dt_second = 0\<rparr>"
  shows "generate_summary parse
           [(''2021-07-06T00:00:00'', 50, 59), (''2021-07-07T00:00:00'', 45, 60)]
         = Inr (''2 Day Overview'' @ [CHR 0x0A]
            @ ''  The lowest temperature will be 7.2'' @ [CHR 0xB0]
            @ ''C, and will occur on Wednesday 07 July 2021.'' @ [CHR 0x0A]
            @ ''  The highest temperature will be 15.6'' @ [CHR 0xB0]
            @ ''C, and will occur on Wednesday 07 July 2021.'' @ [CHR 0x0A]
            @ ''  The average low this week is 8.6'' @ [CHR 0xB0] @ ''C.'' @ [CHR 0x0A]
            @ ''  The average high this week is 15.3'' @ [CHR 0xB0] @ ''C.'' @ [CHR 0x0A])"
proof -
  have "convert_date parse ''2021-07-07T00:00:00'' = Inr ''Wednesday 07 July 2021''"
    using assms strftime_7_july by (simp add: convert_date_def)
  then show ?thesis by (rule summary_two_days)
qed

theorem generate_summary_two_days_witness:
  "iso_seconds ''2021-07-07T00:00:00''
     = Some \<lparr>dt_year = 2021, dt_month = 7, dt_day = 7, dt_hour = 0, dt_minute = 0,
              dt_second = 0\<rparr>
   \<and> generate_summary iso_seconds
           [(''2021-07-06T00:00:00'', 50, 59), (''2021-07-07T00:00:00'', 45, 60)]
         = Inr (''2 Day Overview'' @ [CHR 0x0A]
            @ ''  The lowest temperature will be 7.2'' @ [CHR 0xB0]
            @ ''C, and will occur on Wednesday 07 July 2021.'' @ [CHR 0x0A]
            @ ''  The highest temperature will be 15.6'' @ [CHR 0xB0]
            @ ''C, and will occur on Wednesday 07 July 2021.'' @ [CHR 0x0A]
            @ ''  The average low this week is 8.6'' @ [CHR 0xB0] @ ''C.'' @ [CHR 0x0A]
            @ ''  The average high this week is 15.3'' @ [CHR 0xB0] @ ''C.'' @ [CHR 0x0A])"
  using iso_seconds_7_july generate_summary_two_days[of iso_seconds, OF iso_seconds_7_july]
  by (rule conjI)

text \<open>
  The same dataset with the parser \<open>iso_seconds\<close>: the lowest temperature is 7.2 on
  Wednesday 07 July 2021, not 10.0 on Tuesday 06 July 2021.
\<close>

theorem generate_summary_two_days_counterexample:
  "generate_summary iso_seconds
           [(''2021-07-06T00:00:00'', 50, 59), (''2021-07-07T00:00:00'', 45, 60)]
         = Inr (''2 Day Overview'' @ [CHR 0x0A]
            @ ''  The lowest temperature will be 7.2'' @ [CHR 0xB0]
            @ ''C, and will occur on Wednesday 07 July 2021.'' @ [CHR 0x0A]
            @ ''  The highest temperature will be 15.6'' @ [CHR 0xB0]
            @ ''C, and will occur on Wednesday 07 July 2021.'' @ [CHR 0x0A]
            @ ''  The average low this week is 8.6'' @ [CHR 0xB0] @ ''C.'' @ [CHR 0x0A]
            @ ''  The average high this week is 15.3'' @ [CHR 0xB0] @ ''C.'' @ [CHR 0x0A])
   \<and> convert_f_to_c (PyInt 50) = Inr (Val 10)
   \<and> convert_date iso_seconds ''2021-07-06T00:00:00'' = Inr ''Tuesday 06 July 2021''"
  using summary_two_days[OF convert_date_7_july] convert_f_to_c_50 convert_date_6_july
  by (simp add: convert_f_to_c_def py_float_exact)

declare digits.simps [simp del]

lemma digits_length: "0 < k \<Longrightarrow> n < 10 ^ k \<Longrightarrow> length (digits n) \<le> k"
proof (induction k arbitrary: n)
  case 0
  then show ?case by simp
next
  case (Suc k)
  show ?case
  proof (cases "n < 10")
    case True
    then show ?thesis by (subst digits.simps) simp
  next
    case False
    then have k: "0 < k" using Suc.prems(2) by (cases k) auto
    from Suc.prems(2) have "n div 10 < 10 ^ k" by simp
    from Suc.IH[OF k this] show ?thesis using False by (subst digits.simps) simp
  qed
qed

lemma digits_length_gt: "10 ^ k \<le> n \<Longrightarrow> k < length (digits n)"
proof (induction k arbitrary: n)
  case 0
  show ?case by (subst digits.simps) simp
next
  case (Suc k)
  have "(1::int) \<le> 10 ^ k" by simp
  then have q: "(10::int) \<le> 10 * 10 ^ k" by linarith
  from Suc.prems have p: "10 * 10 ^ k \<le> n" by simp
  from p q have ge: "10 \<le> n" by linarith
  have "(10 * 10 ^ k) div 10 \<le> n div 10"
    using p by (intro zdiv_mono1) simp_all
  then have "10 ^ k \<le> n div 10" by simp
  from Suc.IH[OF this] show ?case using ge by (subst digits.simps) simp
qed

lemma length_zfill: "length (zfill w s) = max w (length s)"
  by (simp add: zfill_def)

lemma days_in_month_le: "1 \<le> m \<Longrightarrow> m \<le> 12 \<Longrightarrow> days_in_month y m \<le> 31"
proof -
  assume "1 \<le> m" and "m \<le> 12"
  then have "m = 1 \<or> m = 2 \<or> m = 3 \<or> m = 4 \<or> m = 5 \<or> m = 6 \<or> m = 7 \<or> m = 8
             \<or> m = 9 \<or> m = 10 \<or> m = 11 \<or> m = 12" by arith
  then show ?thesis by (auto simp: days_in_month_def)
qed

lemma valid_datetime_widths:
  assumes "valid_datetime dt"
  shows "length (zfill 2 (digits (dt_day dt))) = 2"
    and "(length (digits (dt_year dt)) = 4) = (1000 \<le> dt_year dt)"
    and "length (digits (dt_year dt)) \<le> 4"
proof -
  from assms have m: "1 \<le> dt_month dt" "dt_month dt \<le> 12"
    and d: "dt_day dt \<le> days_in_month (dt_year dt) (dt_month dt)"
    and y: "dt_year dt \<le> 9999"
    by (simp_all add: valid_datetime_def)
  have "days_in_month (dt_year dt) (dt_month dt) \<le> 31" by (rule days_in_month_le[OF m])
  with d have "dt_day dt \<le> 31" by linarith
  then have "dt_day dt < 10 ^ 2" by simp
  then have a: "length (digits (dt_day dt)) \<le> 2" by (intro digits_length) simp_all
  from a show "length (zfill 2 (digits (dt_day dt))) = 2" by (simp add: length_zfill)
  from y have "dt_year dt < 10 ^ 4" by simp
  then show b: "length (digits (dt_year dt)) \<le> 4" by (intro digits_length) simp_all
  show "(length (digits (dt_year dt)) = 4) = (1000 \<le> dt_year dt)"
  proof (cases "1000 \<le> dt_year dt")
    case True
    then have "10 ^ 3 \<le> dt_year dt" by simp
    from digits_length_gt[OF this] b True show ?thesis by simp
  next
    case False
    then have "dt_year dt < 10 ^ 3" by simp
    then have "length (digits (dt_year dt)) \<le> 3" by (intro digits_length) simp_all
    with False show ?thesis by simp
  qed
qed

lemma make_datetime_valid: "make_datetime y mo d h mi sec = Some dt \<Longrightarrow> valid_datetime dt"
  by (simp add: make_datetime_def Let_def split: if_splits)

lemma fromisoformat_valid: "fromisoformat s = Some dt \<Longrightarrow> valid_datetime dt"
  unfolding fromisoformat_def Let_def
  by (auto split: if_splits option.splits prod.splits dest: make_datetime_valid)

lemma is_digit_byte: "is_digit c \<Longrightarrow> 48 \<le> (of_char c :: nat) \<and> (of_char c :: nat) \<le> 57"
  unfolding is_digit_def by auto

lemma utf8_ascii: "\<forall>c\<in>set s. (of_char c :: nat) < 128 \<Longrightarrow> utf8 s = map of_char s"
  unfolding utf8_def by (induction s) (simp_all add: Let_def)

lemma find_tz_none:
  "t < e \<Longrightarrow> \<forall>k. t \<le> k \<and> k < e \<longrightarrow> byte_at b k \<noteq> 90 \<and> byte_at b k \<noteq> 43 \<and> byte_at b k \<noteq> 45
   \<Longrightarrow> find_tz b t e = e"
proof (induction b t e rule: find_tz.induct)
  case (1 b t p_end)
  from "1.prems" have nt: "byte_at b t \<noteq> 90 \<and> byte_at b t \<noteq> 43 \<and> byte_at b t \<noteq> 45" by simp
  show ?case
  proof (cases "Suc t < p_end")
    case True
    have "find_tz b (Suc t) p_end = p_end"
      using nt True "1.prems" by (intro "1.IH") auto
    with nt True show ?thesis by (subst find_tz.simps) simp
  next
    case False
    with "1.prems" have "Suc t = p_end" by simp
    with nt False show ?thesis by (subst find_tz.simps) simp
  qed
qed

lemma parse_digits_at_1:
  "isdig (byte_at b p) \<Longrightarrow> parse_digits_at b p (Suc 0) v = Some (v * 10 + (int (byte_at b p) - 48), Suc p)"
  by simp

lemma parse_digits_at_2:
  "isdig (byte_at b p) \<Longrightarrow> isdig (byte_at b (Suc p))
   \<Longrightarrow> parse_digits_at b p 2 v
       = Some ((v * 10 + (int (byte_at b p) - 48)) * 10 + (int (byte_at b (Suc p)) - 48),
               Suc (Suc p))"
  by (simp add: numeral_2_eq_2)

lemma parse_digits_at_4:
  "isdig (byte_at b p) \<Longrightarrow> isdig (byte_at b (Suc p)) \<Longrightarrow> isdig (byte_at b (Suc (Suc p)))
   \<Longrightarrow> isdig (byte_at b (Suc (Suc (Suc p))))
   \<Longrightarrow> parse_digits_at b p 4 v
       = Some ((((v * 10 + (int (byte_at b p) - 48)) * 10 + (int (byte_at b (Suc p)) - 48)) * 10
                 + (int (byte_at b (Suc (Suc p))) - 48)) * 10
               + (int (byte_at b (Suc (Suc (Suc p)))) - 48),
               Suc (Suc (Suc (Suc p))))"
proof -
  have four: "(4::nat) = Suc (Suc (Suc (Suc 0)))" by simp
  assume "isdig (byte_at b p)" "isdig (byte_at b (Suc p))" "isdig (byte_at b (Suc (Suc p)))"
    "isdig (byte_at b (Suc (Suc (Suc p))))"
  then show ?thesis unfolding four by simp
qed

lemma isdig_not_sep: "isdig c \<Longrightarrow> c \<noteq> 87 \<and> c \<noteq> 90 \<and> c \<noteq> 43 \<and> c \<noteq> 45 \<and> c \<noteq> 58 \<and> c \<noteq> 0"
  by (auto simp: isdig_def)

lemma separator_seconds:
  assumes "isdig b5"
  shows "find_isoformat_datetime_separator
           [b0, b1, b2, b3, 45, b5, b6, 45, b8, b9, 84, b11, b12, 58, b14, b15, 58, b17, b18]
         = Some 10"
  using isdig_not_sep[OF assms]
  by (simp add: find_isoformat_datetime_separator_def byte_at_def Let_def)

lemma date_seconds:
  assumes "isdig b0" "isdig b1" "isdig b2" "isdig b3" "isdig b5" "isdig b6" "isdig b8" "isdig b9"
  shows "parse_isoformat_date
           [b0, b1, b2, b3, 45, b5, b6, 45, b8, b9, 84, b11, b12, 58, b14, b15, 58, b17, b18] 10
         = Some (dv4 b0 b1 b2 b3, dv2 b5 b6, dv2 b8 b9)"
proof -
  let ?b = "[b0, b1, b2, b3, 45, b5, b6, 45, b8, b9, 84, b11, b12, 58, b14, b15, 58, b17, b18]"
  have y: "parse_digits_at ?b 0 4 0 = Some (dv4 b0 b1 b2 b3, 4)"
    using assms by (subst parse_digits_at_4) (simp_all add: byte_at_def dv4_def)
  have m: "parse_digits_at ?b 5 2 0 = Some (dv2 b5 b6, 7)"
    using assms by (subst parse_digits_at_2) (simp_all add: byte_at_def dv2_def)
  have d: "parse_digits_at ?b 8 2 0 = Some (dv2 b8 b9, 10)"
    using assms by (subst parse_digits_at_2) (simp_all add: byte_at_def dv2_def)
  have b4: "byte_at ?b 4 = 45" and b5: "byte_at ?b 5 = b5" and b7: "byte_at ?b 7 = 45"
    by (simp_all add: byte_at_def)
  from isdig_not_sep[OF assms(5)] have w: "b5 \<noteq> 87" by simp
  show ?thesis
    unfolding parse_isoformat_date_def y
    by (simp add: b4 b5 b7 w m d)
qed

lemma time_seconds:
  assumes "isdig b11" "isdig b12" "isdig b14" "isdig b15" "isdig b17" "isdig b18"
  shows "parse_isoformat_time
           [b0, b1, b2, b3, 45, b5, b6, 45, b8, b9, 84, b11, b12, 58, b14, b15, 58, b17, b18] 11 8
         = Some ([dv2 b11 b12, dv2 b14 b15, dv2 b17 b18], True)"
proof -
  let ?b = "[b0, b1, b2, b3, 45, b5, b6, 45, b8, b9, 84, b11, b12, 58, b14, b15, 58, b17, b18]"
  have tz: "find_tz ?b 11 19 = 19"
  proof (rule find_tz_none)
    show "(11::nat) < 19" by simp
    show "\<forall>k. 11 \<le> k \<and> k < 19 \<longrightarrow>
            byte_at ?b k \<noteq> 90 \<and> byte_at ?b k \<noteq> 43 \<and> byte_at ?b k \<noteq> 45"
    proof (intro allI impI)
      fix k :: nat
      assume "11 \<le> k \<and> k < 19"
      then have "k = 11 \<or> k = 12 \<or> k = 13 \<or> k = 14 \<or> k = 15 \<or> k = 16 \<or> k = 17 \<or> k = 18"
        by arith
      then show "byte_at ?b k \<noteq> 90 \<and> byte_at ?b k \<noteq> 43 \<and> byte_at ?b k \<noteq> 45"
        using assms[THEN isdig_not_sep] by (auto simp: byte_at_def)
    qed
  qed
  have h: "parse_digits_at ?b 11 2 0 = Some (dv2 b11 b12, 13)"
    using assms by (subst parse_digits_at_2) (simp_all add: byte_at_def dv2_def)
  have m: "parse_digits_at ?b 14 2 0 = Some (dv2 b14 b15, 16)"
    using assms by (subst parse_digits_at_2) (simp_all add: byte_at_def dv2_def)
  have s: "parse_digits_at ?b 17 2 0 = Some (dv2 b17 b18, 19)"
    using assms by (subst parse_digits_at_2) (simp_all add: byte_at_def dv2_def)
  have b13: "byte_at ?b 13 = 58" and b16: "byte_at ?b 16 = 58" and b19: "byte_at ?b 19 = 0"
    by (simp_all add: byte_at_def)
  have three: "(3::nat) = Suc (Suc (Suc 0))" by simp
  have loop: "hms_loop ?b 19 3 True 11 [] = Some ([dv2 b11 b12, dv2 b14 b15, dv2 b17 b18], Inl False)"
    unfolding three hms_loop.simps h
    by (simp add: b13 b16 b19 m s)
  have hms: "parse_hh_mm_ss_ff ?b 11 19 = Some ([dv2 b11 b12, dv2 b14 b15, dv2 b17 b18], 0, False)"
    unfolding parse_hh_mm_ss_ff_def loop by simp
  have e: "(11::nat) + 8 = 19" by simp
  show ?thesis
    unfolding parse_isoformat_time_def e Let_def tz hms by simp
qed

lemma fromisoformat_bytes:
  assumes "utf8 s = [b0, b1, b2, b3, 45, b5, b6, 45, b8, b9, 84, b11, b12, 58, b14, b15, 58, b17, b18]"
    and "isdig b0" "isdig b1" "isdig b2" "isdig b3" "isdig b5" "isdig b6" "isdig b8" "isdig b9"
    and "isdig b11" "isdig b12" "isdig b14" "isdig b15" "isdig b17" "isdig b18"
  shows "fromisoformat s
         = make_datetime (dv4 b0 b1 b2 b3) (dv2 b5 b6) (dv2 b8 b9)
             (dv2 b11 b12) (dv2 b14 b15) (dv2 b17 b18)"
proof -
  let ?b = "[b0, b1, b2, b3, 45, b5, b6, 45, b8, b9, 84, b11, b12, 58, b14, b15, 58, b17, b18]"
  have sep: "find_isoformat_datetime_separator ?b = Some 10"
    by (rule separator_seconds) (rule assms)
  have date: "parse_isoformat_date ?b 10 = Some (dv4 b0 b1 b2 b3, dv2 b5 b6, dv2 b8 b9)"
    by (rule date_seconds) (rule assms)+
  have time: "parse_isoformat_time ?b 11 8 = Some ([dv2 b11 b12, dv2 b14 b15, dv2 b17 b18], True)"
    by (rule time_seconds) (rule assms)+
  have len: "length ?b = 19" by simp
  have b10: "byte_at ?b 10 = 84" by (simp add: byte_at_def)
  show ?thesis
    unfolding fromisoformat_def assms(1) Let_def len sep
    by (simp add: b10 date time field_def)
qed

lemma list19:
  assumes "length s = 19"
  shows "\<exists>c0 c1 c2 c3 c4 c5 c6 c7 c8 c9 c10 c11 c12 c13 c14 c15 c16 c17 c18.
           s = [c0, c1, c2, c3, c4, c5, c6, c7, c8, c9, c10, c11, c12, c13, c14, c15, c16, c17, c18]"
proof -
  have n: "(19::nat) = Suc (Suc (Suc (Suc (Suc (Suc (Suc (Suc (Suc (Suc (Suc (Suc (Suc (Suc (Suc
             (Suc (Suc (Suc (Suc 0))))))))))))))))))" by simp
  from assms show ?thesis unfolding n by (auto simp: length_Suc_conv)
qed

lemma parse_digits_2:
  "parse_digits [a, b] = Some v \<longleftrightarrow>
     is_digit a \<and> is_digit b \<and> v = dv2 (of_char a) (of_char b)"
  by (auto simp: parse_digits_def dv2_def digit_val_def)

lemma parse_digits_4:
  "parse_digits [a, b, c, d] = Some v \<longleftrightarrow>
     is_digit a \<and> is_digit b \<and> is_digit c \<and> is_digit d
     \<and> v = dv4 (of_char a) (of_char b) (of_char c) (of_char d)"
  by (auto simp: parse_digits_def dv4_def digit_val_def)

lemma is_digit_isdig: "is_digit c \<Longrightarrow> isdig (of_char c)"
  using is_digit_byte[of c] by (simp add: isdig_def)

lemma is_digit_ascii: "is_digit c \<Longrightarrow> (of_char c :: nat) < 128"
  using is_digit_byte[of c] by simp

lemma fromisoformat_iso8601:
  assumes "iso8601_datetime s = Some dt"
  shows "fromisoformat s = Some dt"
proof -
  from assms have len: "length s = 19" and T: "s ! 10 = CHR ''T''"
    and iso: "iso_seconds s = Some dt"
    by (simp_all add: iso8601_datetime_def split: if_splits)
  from list19[OF len] obtain c0 c1 c2 c3 c4 c5 c6 c7 c8 c9 c10 c11 c12 c13 c14 c15 c16 c17 c18
    where s: "s = [c0, c1, c2, c3, c4, c5, c6, c7, c8, c9, c10, c11, c12, c13, c14, c15, c16,
                   c17, c18]"
    by blast
  from T have c10: "c10 = CHR ''T''" by (simp add: s)
  from iso obtain y mo d where pd: "parse_date (take 10 s) = Some (y, mo, d)"
    by (auto simp: iso_seconds_def split: option.splits)
  from iso pd len obtain h mi sec where pt: "parse_time (drop 11 s) = Some (h, mi, sec)"
    and mk: "make_datetime y mo d h mi sec = Some dt"
    by (auto simp: iso_seconds_def split: option.splits)
  from pd have c4: "c4 = CHR ''-''" and c7: "c7 = CHR ''-''"
    and py: "parse_digits [c0, c1, c2, c3] = Some y"
    and pm: "parse_digits [c5, c6] = Some mo"
    and pdd: "parse_digits [c8, c9] = Some d"
    by (auto simp: s parse_date_def split: if_splits option.splits)
  from pt have c13: "c13 = CHR '':''" and c16: "c16 = CHR '':''"
    and ph: "parse_digits [c11, c12] = Some h"
    and pmi: "parse_digits [c14, c15] = Some mi"
    and ps: "parse_digits [c17, c18] = Some sec"
    by (auto simp: s parse_time_def split: if_splits option.splits)
  note dg = py[unfolded parse_digits_4] pm[unfolded parse_digits_2] pdd[unfolded parse_digits_2]
    ph[unfolded parse_digits_2] pmi[unfolded parse_digits_2] ps[unfolded parse_digits_2]
  have u: "utf8 s = [of_char c0, of_char c1, of_char c2, of_char c3, 45, of_char c5, of_char c6,
                     45, of_char c8, of_char c9, 84, of_char c11, of_char c12, 58, of_char c14,
                     of_char c15, 58, of_char c17, of_char c18]"
    using dg[THEN conjunct1] dg[THEN conjunct2, THEN conjunct1]
      py[unfolded parse_digits_4, THEN conjunct2, THEN conjunct2, THEN conjunct1]
      py[unfolded parse_digits_4, THEN conjunct2, THEN conjunct2, THEN conjunct2, THEN conjunct1]
    by (subst utf8_ascii) (auto simp: s c4 c7 c10 c13 c16 dest: is_digit_ascii)
  have "fromisoformat s
        = make_datetime (dv4 (of_char c0) (of_char c1) (of_char c2) (of_char c3))
            (dv2 (of_char c5) (of_char c6)) (dv2 (of_char c8) (of_char c9))
            (dv2 (of_char c11) (of_char c12)) (dv2 (of_char c14) (of_char c15))
            (dv2 (of_char c17) (of_char c18))"
    using dg by (intro fromisoformat_bytes[OF u]) (simp_all add: is_digit_isdig)
  also have "\<dots> = make_datetime y mo d h mi sec"
    using dg by simp
  finally show ?thesis using mk by simp
qed

lemma strftime_6_july_noon:
  "strftime \<lparr>dt_year = 2021, dt_month = 7, dt_day = 6, dt_hour = 12, dt_minute = 0,
             dt_second = 0\<rparr> = ''Tuesday 06 July 2021''"
  by code_simp

lemma fromisoformat_6_july_noon:
  "fromisoformat ''2021-07-06T12:00:00''
   = Some \<lparr>dt_year = 2021, dt_month = 7, dt_day = 6, dt_hour = 12, dt_minute = 0,
            dt_second = 0\<rparr>"
  by code_simp

lemma iso8601_6_july_noon:
  "iso8601_datetime ''2021-07-06T12:00:00''
   = Some \<lparr>dt_year = 2021, dt_month = 7, dt_day = 6, dt_hour = 12, dt_minute = 0,
            dt_second = 0\<rparr>"
  by code_simp

lemma convert_date_6_july_noon:
  "convert_date fromisoformat ''2021-07-06T12:00:00'' = Inr ''Tuesday 06 July 2021''"
  by (simp add: convert_date_def fromisoformat_6_july_noon strftime_6_july_noon)

lemma iso8601_date_only: "iso8601_datetime (take 19 ''2021-07-06'') = None"
  by code_simp

lemma convert_date_date_only:
  "convert_date fromisoformat ''2021-07-06'' = Inr ''Tuesday 06 July 2021''"
  by code_simp

lemma iso8601_minutes: "iso8601_datetime (take 19 ''2021-07-06T12:00'') = None"
  by code_simp

lemma convert_date_minutes:
  "convert_date fromisoformat ''2021-07-06T12:00'' = Inr ''Tuesday 06 July 2021''"
  by code_simp

lemma iso8601_year_999:
  "iso8601_datetime (take 19 ''0999-01-01T00:00:00'')
   = Some \<lparr>dt_year = 999, dt_month = 1, dt_day = 1, dt_hour = 0, dt_minute = 0,
            dt_second = 0\<rparr>"
  by code_simp

lemma convert_date_year_999:
  "convert_date fromisoformat ''0999-01-01T00:00:00'' = Inr ''Tuesday 01 January 999''"
  by code_simp

lemma convert_date_take: "convert_date parse s = convert_date parse (take 19 s)"
  by (simp add: convert_date_def)

text \<open>
  C6, as the program has it, with the parser of CPython 3.11.  \<open>convert_date\<close> reads only
  the first 19 characters of its argument: two arguments that agree on them give the same
  result.  It raises the parse error, a \<open>ValueError\<close>, exactly when
  \<open>datetime.fromisoformat\<close> rejects those characters, and raises nothing else.  Every
  string \<open>YYYY-MM-DDTHH:MM:SS\<close> that denotes a date and a time of day is accepted and
  gives the rendering of that date.  On success the date is one of the calendar and the
  result is the weekday name, the day on two digits, the month name and the year in
  decimal, separated by spaces; the year has four digits exactly from the year 1000 on.
  \<open>convert_date("2021-07-06T12:00:00")\<close> is \<open>"Tuesday 06 July 2021"\<close>.
\<close>

theorem convert_date_spec:
  "convert_date fromisoformat s = convert_date fromisoformat (take 19 s)
   \<and> (\<forall>t. take 19 t = take 19 s
          \<longrightarrow> convert_date fromisoformat t = convert_date fromisoformat s)
   \<and> (convert_date fromisoformat s = Inl ValueError \<longleftrightarrow> fromisoformat (take 19 s) = None)
   \<and> convert_date fromisoformat s \<noteq> Inl ZeroDivisionError
   \<and> convert_date fromisoformat s \<noteq> Inl OverflowError
   \<and> (\<forall>dt. iso8601_datetime (take 19 s) = Some dt
           \<longrightarrow> convert_date fromisoformat s = Inr (strftime dt))
   \<and> (\<forall>dt. fromisoformat (take 19 s) = Some dt \<longrightarrow>
         valid_datetime dt
         \<and> convert_date fromisoformat s =
             Inr (day_name (weekday dt) @ '' '' @ zfill 2 (digits (dt_day dt)) @ '' ''
                  @ month_name (dt_month dt) @ '' '' @ digits (dt_year dt))
         \<and> length (zfill 2 (digits (dt_day dt))) = 2
         \<and> (length (digits (dt_year dt)) = 4) = (1000 \<le> dt_year dt))
   \<and> convert_date fromisoformat ''2021-07-06T12:00:00'' = Inr ''Tuesday 06 July 2021''"
proof -
  have a: "convert_date fromisoformat s = convert_date fromisoformat (take 19 s)"
    by (rule convert_date_take)
  have a': "\<forall>t. take 19 t = take 19 s
              \<longrightarrow> convert_date fromisoformat t = convert_date fromisoformat s"
    by (simp add: convert_date_def)
  have b: "convert_date fromisoformat s = Inl ValueError \<longleftrightarrow> fromisoformat (take 19 s) = None"
    by (auto simp: convert_date_def split: option.splits)
  have c: "convert_date fromisoformat s \<noteq> Inl ZeroDivisionError"
    by (auto simp: convert_date_def split: option.splits)
  have c': "convert_date fromisoformat s \<noteq> Inl OverflowError"
    by (auto simp: convert_date_def split: option.splits)
  have d: "\<forall>dt. iso8601_datetime (take 19 s) = Some dt
             \<longrightarrow> convert_date fromisoformat s = Inr (strftime dt)"
  proof (intro allI impI)
    fix dt
    assume "iso8601_datetime (take 19 s) = Some dt"
    then have "fromisoformat (take 19 s) = Some dt" by (rule fromisoformat_iso8601)
    then show "convert_date fromisoformat s = Inr (strftime dt)"
      by (simp add: convert_date_def)
  qed
  have e: "\<forall>dt. fromisoformat (take 19 s) = Some dt \<longrightarrow>
         valid_datetime dt
         \<and> convert_date fromisoformat s =
             Inr (day_name (weekday dt) @ '' '' @ zfill 2 (digits (dt_day dt)) @ '' ''
                  @ month_name (dt_month dt) @ '' '' @ digits (dt_year dt))
         \<and> length (zfill 2 (digits (dt_day dt))) = 2
         \<and> (length (digits (dt_year dt)) = 4) = (1000 \<le> dt_year dt)"
  proof (intro allI impI)
    fix dt
    assume p: "fromisoformat (take 19 s) = Some dt"
    then have v: "valid_datetime dt" by (rule fromisoformat_valid)
    from p have r: "convert_date fromisoformat s =
             Inr (day_name (weekday dt) @ '' '' @ zfill 2 (digits (dt_day dt)) @ '' ''
                  @ month_name (dt_month dt) @ '' '' @ digits (dt_year dt))"
      by (simp add: convert_date_def strftime_def)
    from v r valid_datetime_widths(1)[OF v] valid_datetime_widths(2)[OF v]
    show "valid_datetime dt
         \<and> convert_date fromisoformat s =
             Inr (day_name (weekday dt) @ '' '' @ zfill 2 (digits (dt_day dt)) @ '' ''
                  @ month_name (dt_month dt) @ '' '' @ digits (dt_year dt))
         \<and> length (zfill 2 (digits (dt_day dt))) = 2
         \<and> (length (digits (dt_year dt)) = 4) = (1000 \<le> dt_year dt)"
      by (intro conjI)
  qed
  show ?thesis
    by (intro conjI) (rule a a' b c c' d e convert_date_6_july_noon)+
qed

theorem convert_date_spec_witness:
  "take 19 ''2021-07-06T12:00:00'' = take 19 ''2021-07-06T12:00:00.123456+01:00''
   \<and> iso8601_datetime (take 19 ''2021-07-06T12:00:00.123456+01:00'')
       = Some \<lparr>dt_year = 2021, dt_month = 7, dt_day = 6, dt_hour = 12, dt_minute = 0,
                dt_second = 0\<rparr>
   \<and> fromisoformat (take 19 ''2021-07-06T12:00:00.123456+01:00'')
       = Some \<lparr>dt_year = 2021, dt_month = 7, dt_day = 6, dt_hour = 12, dt_minute = 0,
                dt_second = 0\<rparr>
   \<and> convert_date fromisoformat ''2021-07-06T12:00:00.123456+01:00''
       = Inr ''Tuesday 06 July 2021''
   \<and> convert_date fromisoformat ''2021-07-06T12:00:00''
       = convert_date fromisoformat ''2021-07-06T12:00:00.123456+01:00''
   \<and> valid_datetime \<lparr>dt_year = 2021, dt_month = 7, dt_day = 6, dt_hour = 12, dt_minute = 0,
                       dt_second = 0\<rparr>
   \<and> length (zfill 2 (digits 6)) = 2 \<and> length (digits 2021) = 4"
proof -
  let ?dt = "\<lparr>dt_year = 2021, dt_month = 7, dt_day = 6, dt_hour = 12, dt_minute = 0,
              dt_second = 0\<rparr>"
  let ?long = "''2021-07-06T12:00:00.123456+01:00''"
  let ?short = "''2021-07-06T12:00:00''"
  have t: "take 19 ?long = ?short" by simp
  have t': "take 19 ?short = take 19 ?long" by simp
  have i: "iso8601_datetime (take 19 ?long) = Some ?dt"
    unfolding t by (rule iso8601_6_july_noon)
  have f: "fromisoformat (take 19 ?long) = Some ?dt"
    unfolding t by (rule fromisoformat_6_july_noon)
  note spec = convert_date_spec[of ?long]
  from spec have same: "\<forall>t. take 19 t = take 19 ?long
        \<longrightarrow> convert_date fromisoformat t = convert_date fromisoformat ?long"
    by (elim conjE)
  from spec have sound: "\<forall>dt. iso8601_datetime (take 19 ?long) = Some dt
        \<longrightarrow> convert_date fromisoformat ?long = Inr (strftime dt)"
    by (elim conjE)
  from spec have shape: "\<forall>dt. fromisoformat (take 19 ?long) = Some dt \<longrightarrow>
         valid_datetime dt
         \<and> convert_date fromisoformat ?long =
             Inr (day_name (weekday dt) @ '' '' @ zfill 2 (digits (dt_day dt)) @ '' ''
                  @ month_name (dt_month dt) @ '' '' @ digits (dt_year dt))
         \<and> length (zfill 2 (digits (dt_day dt))) = 2
         \<and> (length (digits (dt_year dt)) = 4) = (1000 \<le> dt_year dt)"
    by (elim conjE)
  from same[rule_format, OF t']
  have r1: "convert_date fromisoformat ?short = convert_date fromisoformat ?long" .
  from sound[rule_format, OF i]
  have r2: "convert_date fromisoformat ?long = Inr ''Tuesday 06 July 2021''"
    unfolding strftime_6_july_noon .
  from shape[rule_format, OF f]
  have v: "valid_datetime ?dt" and w1: "length (zfill 2 (digits 6)) = 2"
    and w2: "length (digits 2021) = 4"
    by simp_all
  show ?thesis
    by (intro conjI) (rule t' i f r2 r1 v w1 w2)+
qed

text \<open>
  The parser accepts more than the dates with a time to the second: a date alone and a
  time to the minute are read too, so \<open>convert_date\<close> succeeds on strings outside the
  grammar \<open>YYYY-MM-DDTHH:MM:SS\<close>.  And the year 999, valid in that grammar, is rendered
  on three digits.
\<close>

theorem convert_date_spec_counterexample:
  "iso8601_datetime (take 19 ''2021-07-06'') = None
   \<and> convert_date fromisoformat ''2021-07-06'' = Inr ''Tuesday 06 July 2021''
   \<and> iso8601_datetime (take 19 ''2021-07-06T12:00'') = None
   \<and> convert_date fromisoformat ''2021-07-06T12:00'' = Inr ''Tuesday 06 July 2021''
   \<and> iso8601_datetime (take 19 ''0999-01-01T00:00:00'')
       = Some \<lparr>dt_year = 999, dt_month = 1, dt_day = 1, dt_hour = 0, dt_minute = 0,
                dt_second = 0\<rparr>
   \<and> convert_date fromisoformat ''0999-01-01T00:00:00'' = Inr ''Tuesday 01 January 999''"
  by (intro conjI)
     (rule iso8601_date_only convert_date_date_only iso8601_minutes convert_date_minutes
        iso8601_year_999 convert_date_year_999)+

end
